theory Spec2Isabelle
  imports Complex_Main
begin

section \<open>The hyperfine parser of Muon-site-summary.ipynb\<close>

text \<open>
  The notebook defines one function, \<^verbatim>\<open>get_hyperfine(outcar, natoms, muon_index=-1)\<close>.
  It scans the lines of an OUTCAR file for three markers, fills two arrays
  (\<^verbatim>\<open>contacts\<close>, \<^verbatim>\<open>dipole_tensors\<close>) and a local \<^verbatim>\<open>totalS\<close>, and then computes the
  field at the muon from the arrays.

  Conventions of the embedding:
  \<^item> the file is the list of its lines, in order; the file iterator is the list of the
    lines not yet read, and \<^verbatim>\<open>next(f)\<close> on an exhausted iterator is the error
    \<open>StopIteration\<close>. A line may or may not carry its final newline: the newline is
    whitespace for \<^verbatim>\<open>split\<close> and occurs in no pattern;
  \<^item> a character is a code point below 256;
  \<^item> a float is a real number: rounding, overflow and non-finite tokens are not
    modelled. The one place where the code produces a non-number from numbers, the
    division by a zero \<^verbatim>\<open>B_magnitude\<close>, is modelled by the value \<open>NaN\<close>;
  \<^item> the conversions from a token to a float (\<^verbatim>\<open>float(tok)\<close> of Python and
    \<^verbatim>\<open>astype(float)\<close> of numpy) are parameters \<open>py\<close> and \<open>np\<close> of type
    \<open>string \<Rightarrow> real option\<close>, \<open>None\<close> where the conversion raises ValueError;
  \<^item> an exception is a value \<open>Inl e\<close>; every function that can raise returns a sum.
\<close>

subsection \<open>Exceptions\<close>

datatype error = StopIteration | ValueError | IndexError

definition ebind :: "error + 'a \<Rightarrow> ('a \<Rightarrow> error + 'b) \<Rightarrow> error + 'b" where
  "ebind m f = (case m of Inl e \<Rightarrow> Inl e | Inr x \<Rightarrow> f x)"

subsection \<open>Strings: \<^verbatim>\<open>str.split()\<close> and \<^verbatim>\<open>re.search\<close>\<close>

text \<open>The characters below 256 that \<^verbatim>\<open>str.split()\<close> treats as whitespace.\<close>

definition isspace :: "char \<Rightarrow> bool" where
  "isspace c = (c \<in> set [CHR 0x09, CHR 0x0A, CHR 0x0B, CHR 0x0C, CHR 0x0D,
                          CHR 0x1C, CHR 0x1D, CHR 0x1E, CHR 0x1F, CHR 0x20,
                          CHR 0x85, CHR 0xA0])"

text \<open>
  \<^verbatim>\<open>line.split()\<close>: the maximal runs of non-whitespace characters, in order.
  \<open>cur\<close> is the token being read.
\<close>

fun split_acc :: "string \<Rightarrow> string \<Rightarrow> string list" where
  "split_acc cur [] = (if cur = [] then [] else [cur])"
| "split_acc cur (c # cs) =
     (if isspace c then (if cur = [] then split_acc [] cs else cur # split_acc [] cs)
      else split_acc (cur @ [c]) cs)"

definition str_split :: "string \<Rightarrow> string list" where
  "str_split s = split_acc [] s"

fun startswith :: "string \<Rightarrow> string \<Rightarrow> bool" where
  "startswith [] s = True"
| "startswith (p # ps) [] = False"
| "startswith (p # ps) (c # cs) = (p = c \<and> startswith ps cs)"

text \<open>
  \<^verbatim>\<open>re.compile(pat).search(line)\<close> for a pattern that matches one literal text: the
  text occurs somewhere in the line.
\<close>

fun re_search :: "string \<Rightarrow> string \<Rightarrow> bool" where
  "re_search pat [] = (pat = [])"
| "re_search pat (c # cs) = (startswith pat (c # cs) \<or> re_search pat cs)"

text \<open>
  The three compiled patterns. In the second and third the source escapes the
  parentheses, so that each pattern matches its text literally.
\<close>

definition re_totalspin :: "string \<Rightarrow> bool" where
  "re_totalspin line = re_search ''Total magnetic moment S'' line"

definition re_contact :: "string \<Rightarrow> bool" where
  "re_contact line =
     re_search ''Fermi contact (isotropic) hyperfine coupling parameter (MHz)'' line"

definition re_dipole :: "string \<Rightarrow> bool" where
  "re_dipole line = re_search ''Dipolar hyperfine coupling parameters (MHz)'' line"

subsection \<open>Indexing and the file iterator\<close>

text \<open>\<^verbatim>\<open>xs[k]\<close> for a literal index \<open>k \<ge> 0\<close>.\<close>

definition getitem :: "'a list \<Rightarrow> nat \<Rightarrow> error + 'a" where
  "getitem xs k = (if k < length xs then Inr (xs ! k) else Inl IndexError)"

text \<open>\<^verbatim>\<open>xs[-1]\<close>.\<close>

definition last_item :: "'a list \<Rightarrow> error + 'a" where
  "last_item xs = (if xs = [] then Inl IndexError else Inr (last xs))"

text \<open>\<^verbatim>\<open>xs[i]\<close> for any integer: a negative index counts from the end.\<close>

definition pyindex :: "'a list \<Rightarrow> int \<Rightarrow> error + 'a" where
  "pyindex xs i =
     (let n = int (length xs); j = (if i < 0 then i + n else i)
      in if 0 \<le> j \<and> j < n then Inr (xs ! nat j) else Inl IndexError)"

text \<open>\<^verbatim>\<open>xs[i] = v\<close> on an array of fixed length.\<close>

definition setitem :: "'a list \<Rightarrow> nat \<Rightarrow> 'a \<Rightarrow> error + 'a list" where
  "setitem xs i v = (if i < length xs then Inr (xs[i := v]) else Inl IndexError)"

text \<open>\<^verbatim>\<open>a[i][r][c] = v\<close> on a three-dimensional array.\<close>

definition setitem3 ::
  "real list list list \<Rightarrow> nat \<Rightarrow> nat \<Rightarrow> nat \<Rightarrow> real \<Rightarrow> error + real list list list" where
  "setitem3 a i r c v =
     (if i < length a \<and> r < length (a ! i) \<and> c < length (a ! i ! r)
      then Inr (a[i := (a ! i)[r := (a ! i ! r)[c := v]]])
      else Inl IndexError)"

text \<open>\<^verbatim>\<open>next(f)\<close>: the next line and the rest of the iterator.\<close>

fun next_line :: "string list \<Rightarrow> error + (string \<times> string list)" where
  "next_line [] = Inl StopIteration"
| "next_line (l # f) = Inr (l, f)"

text \<open>The three \<^verbatim>\<open>next(f)\<close> calls after a header, whose lines are dropped.\<close>

definition skip_lines :: "string list \<Rightarrow> error + string list" where
  "skip_lines f =
     ebind (next_line f) (\<lambda>(l1, f1).
     ebind (next_line f1) (\<lambda>(l2, f2).
     ebind (next_line f2) (\<lambda>(l3, f3). Inr f3)))"

subsection \<open>Token conversion\<close>

text \<open>\<^verbatim>\<open>float(tok)\<close>.\<close>

definition to_float :: "(string \<Rightarrow> real option) \<Rightarrow> string \<Rightarrow> error + real" where
  "to_float py tok = (case py tok of None \<Rightarrow> Inl ValueError | Some v \<Rightarrow> Inr v)"

text \<open>\<^verbatim>\<open>np.array(toks).astype(float)\<close>: every token is converted, or the call raises.\<close>

definition astype_float :: "(string \<Rightarrow> real option) \<Rightarrow> string list \<Rightarrow> error + real list" where
  "astype_float np toks =
     (case those (map np toks) of None \<Rightarrow> Inl ValueError | Some vs \<Rightarrow> Inr vs)"

subsection \<open>The scan\<close>

record scan_state =
  totalS :: "real option"
  contacts :: "real list"
  dipole_tensors :: "real list list list"

text \<open>
  \<^verbatim>\<open>for i in range(natoms): A_tot = float(next(f).split()[-1]); contacts[i] = A_tot\<close>,
  with \<open>k\<close> iterations left and the index at \<open>i\<close>.
\<close>

fun contact_rows ::
  "(string \<Rightarrow> real option) \<Rightarrow> nat \<Rightarrow> nat \<Rightarrow> string list \<Rightarrow> real list
   \<Rightarrow> error + (string list \<times> real list)" where
  "contact_rows py 0 i f cs = Inr (f, cs)"
| "contact_rows py (Suc k) i f cs =
     ebind (next_line f) (\<lambda>(l, f').
     ebind (last_item (str_split l)) (\<lambda>tok.
     ebind (to_float py tok) (\<lambda>A_tot.
     ebind (setitem cs i A_tot) (\<lambda>cs'.
     contact_rows py k (Suc i) f' cs'))))"

definition contact_block ::
  "(string \<Rightarrow> real option) \<Rightarrow> nat \<Rightarrow> string list \<Rightarrow> real list
   \<Rightarrow> error + (string list \<times> real list)" where
  "contact_block py natoms f cs =
     ebind (skip_lines f) (\<lambda>f3. contact_rows py natoms 0 f3 cs)"

text \<open>The nine assignments to \<^verbatim>\<open>dipole_tensors[i]\<close>, in the order of the source.\<close>

definition store_row ::
  "real list list list \<Rightarrow> nat \<Rightarrow> real list \<Rightarrow> error + real list list list" where
  "store_row ts i A_dip =
     ebind (getitem A_dip 1) (\<lambda>v. ebind (setitem3 ts i 0 0 v) (\<lambda>ts.
     ebind (getitem A_dip 2) (\<lambda>v. ebind (setitem3 ts i 1 1 v) (\<lambda>ts.
     ebind (getitem A_dip 3) (\<lambda>v. ebind (setitem3 ts i 2 2 v) (\<lambda>ts.
     ebind (getitem A_dip 4) (\<lambda>v. ebind (setitem3 ts i 0 1 v) (\<lambda>ts.
     ebind (getitem A_dip 4) (\<lambda>v. ebind (setitem3 ts i 1 0 v) (\<lambda>ts.
     ebind (getitem A_dip 5) (\<lambda>v. ebind (setitem3 ts i 0 2 v) (\<lambda>ts.
     ebind (getitem A_dip 5) (\<lambda>v. ebind (setitem3 ts i 2 0 v) (\<lambda>ts.
     ebind (getitem A_dip 6) (\<lambda>v. ebind (setitem3 ts i 1 2 v) (\<lambda>ts.
     ebind (getitem A_dip 6) (\<lambda>v. setitem3 ts i 2 1 v)))))))))))))))))"

text \<open>One dipolar data line: split, convert every token, store.\<close>

definition dipole_row ::
  "(string \<Rightarrow> real option) \<Rightarrow> real list list list \<Rightarrow> nat \<Rightarrow> string
   \<Rightarrow> error + real list list list" where
  "dipole_row np ts i l =
     ebind (astype_float np (str_split l)) (\<lambda>A_dip. store_row ts i A_dip)"

fun dipole_rows ::
  "(string \<Rightarrow> real option) \<Rightarrow> nat \<Rightarrow> nat \<Rightarrow> string list \<Rightarrow> real list list list
   \<Rightarrow> error + (string list \<times> real list list list)" where
  "dipole_rows np 0 i f ts = Inr (f, ts)"
| "dipole_rows np (Suc k) i f ts =
     ebind (next_line f) (\<lambda>(l, f').
     ebind (dipole_row np ts i l) (\<lambda>ts'.
     dipole_rows np k (Suc i) f' ts'))"

definition dipole_block ::
  "(string \<Rightarrow> real option) \<Rightarrow> nat \<Rightarrow> string list \<Rightarrow> real list list list
   \<Rightarrow> error + (string list \<times> real list list list)" where
  "dipole_block np natoms f ts =
     ebind (skip_lines f) (\<lambda>f3. dipole_rows np natoms 0 f3 ts)"

text \<open>
  The body of \<^verbatim>\<open>for line in f\<close>: three \<^verbatim>\<open>if\<close> statements in sequence, all on the
  same \<open>line\<close>; \<open>f\<close> is the iterator after \<open>line\<close>. The result is the iterator and the
  state after the body.
\<close>

definition spin_part ::
  "(string \<Rightarrow> real option) \<Rightarrow> string \<Rightarrow> scan_state \<Rightarrow> error + scan_state" where
  "spin_part py line st =
     (if re_totalspin line
      then ebind (last_item (str_split line)) (\<lambda>tok.
           ebind (to_float py tok) (\<lambda>v. Inr (st\<lparr>totalS := Some v\<rparr>)))
      else Inr st)"

definition contact_part ::
  "(string \<Rightarrow> real option) \<Rightarrow> nat \<Rightarrow> string \<Rightarrow> string list \<Rightarrow> scan_state
   \<Rightarrow> error + (string list \<times> scan_state)" where
  "contact_part py natoms line f st =
     (if re_contact line
      then ebind (contact_block py natoms f (contacts st)) (\<lambda>(f', cs).
           Inr (f', st\<lparr>contacts := cs\<rparr>))
      else Inr (f, st))"

definition dipole_part ::
  "(string \<Rightarrow> real option) \<Rightarrow> nat \<Rightarrow> string \<Rightarrow> string list \<Rightarrow> scan_state
   \<Rightarrow> error + (string list \<times> scan_state)" where
  "dipole_part np natoms line f st =
     (if re_dipole line
      then ebind (dipole_block np natoms f (dipole_tensors st)) (\<lambda>(f', ts).
           Inr (f', st\<lparr>dipole_tensors := ts\<rparr>))
      else Inr (f, st))"

definition loop_body ::
  "(string \<Rightarrow> real option) \<Rightarrow> (string \<Rightarrow> real option) \<Rightarrow> nat \<Rightarrow> string \<Rightarrow> string list
   \<Rightarrow> scan_state \<Rightarrow> error + (string list \<times> scan_state)" where
  "loop_body py np natoms line f st =
     ebind (spin_part py line st) (\<lambda>st1.
     ebind (contact_part py natoms line f st1) (\<lambda>(f1, st2).
     dipole_part np natoms line f1 st2))"

subsection \<open>Basic facts used by the definitions below\<close>

lemma ebind_Inl [simp]: "ebind (Inl e) f = Inl e"
  by (simp add: ebind_def)

lemma ebind_Inr [simp]: "ebind (Inr x) f = f x"
  by (simp add: ebind_def)

lemma ebind_eq_Inr: "ebind m f = Inr y \<longleftrightarrow> (\<exists>x. m = Inr x \<and> f x = Inr y)"
  by (cases m) simp_all

lemma ebind_cong [fundef_cong]:
  "m = m' \<Longrightarrow> (\<And>x. m' = Inr x \<Longrightarrow> f x = g x) \<Longrightarrow> ebind m f = ebind m' g"
  by (cases m') simp_all

lemma next_line_eq_Inr: "next_line f = Inr (l, f') \<longleftrightarrow> f = l # f'"
  by (cases f) auto

lemma skip_lines_eq_Inr:
  "skip_lines f = Inr f3 \<longleftrightarrow> (\<exists>l1 l2 l3. f = l1 # l2 # l3 # f3)"
  by (auto simp: skip_lines_def ebind_eq_Inr next_line_eq_Inr)

lemma contact_rows_consumes:
  "contact_rows py k i f cs = Inr (f', cs') \<Longrightarrow> k \<le> length f \<and> f' = drop k f"
proof (induction k arbitrary: i f cs)
  case 0
  then show ?case by simp
next
  case (Suc k)
  then obtain l f1 cs1 where f: "f = l # f1"
    and rec: "contact_rows py k (Suc i) f1 cs1 = Inr (f', cs')"
    by (auto simp: ebind_eq_Inr next_line_eq_Inr)
  from Suc.IH [OF rec] f show ?case by simp
qed

lemma dipole_rows_consumes:
  "dipole_rows np k i f ts = Inr (f', ts') \<Longrightarrow> k \<le> length f \<and> f' = drop k f"
proof (induction k arbitrary: i f ts)
  case 0
  then show ?case by simp
next
  case (Suc k)
  then obtain l f1 ts1 where f: "f = l # f1"
    and rec: "dipole_rows np k (Suc i) f1 ts1 = Inr (f', ts')"
    by (auto simp: ebind_eq_Inr next_line_eq_Inr)
  from Suc.IH [OF rec] f show ?case by simp
qed

lemma contact_block_consumes:
  "contact_block py n f cs = Inr (f', cs') \<Longrightarrow> n + 3 \<le> length f \<and> f' = drop (n + 3) f"
  by (auto simp: contact_block_def ebind_eq_Inr skip_lines_eq_Inr numeral_3_eq_3
      dest!: contact_rows_consumes)

lemma dipole_block_consumes:
  "dipole_block np n f ts = Inr (f', ts') \<Longrightarrow> n + 3 \<le> length f \<and> f' = drop (n + 3) f"
  by (auto simp: dipole_block_def ebind_eq_Inr skip_lines_eq_Inr numeral_3_eq_3
      dest!: dipole_rows_consumes)

lemma contact_part_length:
  "contact_part py n line f st = Inr (f', st') \<Longrightarrow> length f' \<le> length f"
  by (auto simp: contact_part_def ebind_eq_Inr split: if_splits dest!: contact_block_consumes)

lemma dipole_part_length:
  "dipole_part np n line f st = Inr (f', st') \<Longrightarrow> length f' \<le> length f"
  by (auto simp: dipole_part_def ebind_eq_Inr split: if_splits dest!: dipole_block_consumes)

lemma loop_body_length:
  "loop_body py np n line f st = Inr (f', st') \<Longrightarrow> length f' \<le> length f"
  by (auto simp: loop_body_def ebind_eq_Inr dest!: contact_part_length dipole_part_length)

subsection \<open>The loop, the arrays and the result\<close>

text \<open>
  \<^verbatim>\<open>for line in f: ...\<close>. The loop takes the next line of the iterator; the body may
  take more lines from the same iterator. An exception in the body leaves the loop
  and the function.
\<close>

function scan_lines ::
  "(string \<Rightarrow> real option) \<Rightarrow> (string \<Rightarrow> real option) \<Rightarrow> nat \<Rightarrow> string list
   \<Rightarrow> scan_state \<Rightarrow> error + scan_state" where
  "scan_lines py np natoms [] st = Inr st"
| "scan_lines py np natoms (line # f) st =
     ebind (loop_body py np natoms line f st) (\<lambda>(f', st').
     scan_lines py np natoms f' st')"
  by pat_completeness auto
termination
  by (relation "measure (\<lambda>(py, np, natoms, f, st). length f)")
     (auto dest: loop_body_length simp: less_Suc_eq_le)

text \<open>\<^verbatim>\<open>np.zeros((3, 3))\<close> and \<^verbatim>\<open>np.eye(3)\<close>.\<close>

definition zeros33 :: "real list list" where
  "zeros33 = replicate 3 (replicate 3 0)"

definition eye3 :: "real list list" where
  "eye3 = [[1, 0, 0], [0, 1, 0], [0, 0, 1]]"

text \<open>
  The arrays before the scan: \<^verbatim>\<open>np.zeros(natoms)\<close> and \<^verbatim>\<open>np.zeros((natoms, 3, 3))\<close>;
  \<^verbatim>\<open>totalS\<close> is not bound yet.
\<close>

definition init_state :: "nat \<Rightarrow> scan_state" where
  "init_state natoms =
     \<lparr>totalS = None, contacts = replicate natoms 0,
      dipole_tensors = replicate natoms zeros33\<rparr>"

text \<open>
  The first half of the function: the arrays are allocated (\<^verbatim>\<open>np.zeros\<close> raises
  ValueError on a negative size) and the file is scanned.
\<close>

definition extract_tensors ::
  "(string \<Rightarrow> real option) \<Rightarrow> (string \<Rightarrow> real option) \<Rightarrow> string list \<Rightarrow> int
   \<Rightarrow> error + scan_state" where
  "extract_tensors py np outcar natoms =
     (if natoms < 0 then Inl ValueError
      else scan_lines py np (nat natoms) outcar (init_state (nat natoms)))"

text \<open>
  A value of the angle: a number, or the NaN that numpy computes (with a warning, not
  an exception) from a division by zero or an \<^verbatim>\<open>arccos\<close> outside \<open>[-1, 1]\<close>.
\<close>

datatype float64 = Num real | NaN

record result =
  res_A_c :: real
  res_A_dip :: "real list list"
  res_A :: "real list list"
  res_Bfield :: "real list"
  res_B_magnitude :: real
  res_theta :: float64

text \<open>
  Elementwise operations of numpy on arrays of equal shape. The arrays of the function
  have the shapes of their allocation throughout, \<open>(natoms)\<close> and \<open>(natoms, 3, 3)\<close>.
\<close>

definition scale :: "real list list \<Rightarrow> real \<Rightarrow> real list list" where
  "scale m k = map (map (\<lambda>x. x * k)) m"

definition madd :: "real list list \<Rightarrow> real list list \<Rightarrow> real list list" where
  "madd a b = map2 (map2 (+)) a b"

text \<open>\<^verbatim>\<open>np.linalg.norm(v)\<close> and \<^verbatim>\<open>v.dot(w)\<close> on vectors.\<close>

definition norm2 :: "real list \<Rightarrow> real" where
  "norm2 v = sqrt (sum_list (map (\<lambda>x. x * x) v))"

definition dot :: "real list \<Rightarrow> real list \<Rightarrow> real" where
  "dot v w = sum_list (map2 (*) v w)"

text \<open>
  \<^verbatim>\<open>180*np.arccos(d / m) / np.pi\<close>. With \<open>m = 0\<close> the quotient is NaN or an infinity,
  and \<^verbatim>\<open>np.arccos\<close> of either is NaN; a NaN compares false with 90, so that the
  \<^verbatim>\<open>if theta > 90\<close> leaves it.
\<close>

definition angle_deg :: "real \<Rightarrow> real \<Rightarrow> float64" where
  "angle_deg d m =
     (if m = 0 \<or> \<bar>d / m\<bar> > 1 then NaN else Num (180 * arccos (d / m) / pi))"

definition fold_angle :: "float64 \<Rightarrow> float64" where
  "fold_angle theta =
     (case theta of NaN \<Rightarrow> NaN | Num t \<Rightarrow> if t > 90 then Num (180 - t) else Num t)"

text \<open>The second half of the function, from \<^verbatim>\<open>A_c = contacts[muon_index] * gamma_mu\<close> on.\<close>

definition synthesize ::
  "real \<Rightarrow> real list \<Rightarrow> real list list list \<Rightarrow> int \<Rightarrow> error + result" where
  "synthesize gamma cs ts muon_index =
     ebind (pyindex cs muon_index) (\<lambda>c.
     ebind (pyindex ts muon_index) (\<lambda>d.
       let A_c = c * gamma;
           A_dip = scale d gamma;
           A = madd A_dip (scale eye3 A_c)
       in ebind (getitem A 2) (\<lambda>row.
       let Bfield = map (\<lambda>x. 0.5 * x) row;
           B_magnitude = norm2 Bfield;
           z = [0, 0, 1];
           theta = fold_angle (angle_deg (dot Bfield z) B_magnitude)
       in Inr \<lparr>res_A_c = A_c, res_A_dip = A_dip, res_A = A, res_Bfield = Bfield,
               res_B_magnitude = B_magnitude, res_theta = theta\<rparr>)))"

text \<open>The muon's gyromagnetic ratio, \<^verbatim>\<open>851.616 / (2*np.pi)\<close>.\<close>

definition gamma_mu :: real where
  "gamma_mu = 851.616 / (2 * pi)"

definition get_hyperfine ::
  "(string \<Rightarrow> real option) \<Rightarrow> (string \<Rightarrow> real option) \<Rightarrow> string list \<Rightarrow> int \<Rightarrow> int
   \<Rightarrow> error + result" where
  "get_hyperfine py np outcar natoms muon_index =
     ebind (extract_tensors py np outcar natoms) (\<lambda>st.
     synthesize gamma_mu (contacts st) (dipole_tensors st) muon_index)"

subsection \<open>The angle on any float64\<close>

text \<open>
  The result above holds real numbers: it gives the function on finite values, with
  exact arithmetic. A float64 can also be an infinity or NaN (a product that
  overflows, a token \<^verbatim>\<open>nan\<close> or \<^verbatim>\<open>inf\<close>), and numpy then goes on computing. The two lines
  that compute the angle are therefore also given on any two values of float64;
  \<open>angle_deg\<close> is their restriction to numbers.
\<close>





subsection \<open>The loop's iterations\<close>

text \<open>
  The iterations of \<^verbatim>\<open>for line in f\<close>, in order: the line the loop took, the iterator
  after it and the state, each time the body is entered. A header is matched where it
  is the line of an iteration; a header inside a block is read as data and never
  matched.
\<close>

function iterations ::
  "(string \<Rightarrow> real option) \<Rightarrow> (string \<Rightarrow> real option) \<Rightarrow> nat \<Rightarrow> string list
   \<Rightarrow> scan_state \<Rightarrow> (string \<times> string list \<times> scan_state) list" where
  "iterations py np natoms [] st = []"
| "iterations py np natoms (line # f) st =
     (line, f, st) #
     (case loop_body py np natoms line f st of
        Inl e \<Rightarrow> []
      | Inr (f', st') \<Rightarrow> iterations py np natoms f' st')"
  by pat_completeness auto
termination
  by (relation "measure (\<lambda>(py, np, natoms, f, st). length f)")
     (auto dest: loop_body_length simp: less_Suc_eq_le)

subsection \<open>Decimal tokens\<close>

text \<open>
  The conversion of the tokens that VASP writes, on which \<^verbatim>\<open>float\<close> and
  \<^verbatim>\<open>astype(float)\<close> agree: an optional sign, then digits with at most one point and at
  least one digit. It stands for both conversions at concrete inputs, all of whose
  tokens are of this form or are no numbers at all.
\<close>

definition digit_of :: "char \<Rightarrow> nat option" where
  "digit_of c =
     (if c = CHR ''0'' then Some 0 else if c = CHR ''1'' then Some 1
      else if c = CHR ''2'' then Some 2 else if c = CHR ''3'' then Some 3
      else if c = CHR ''4'' then Some 4 else if c = CHR ''5'' then Some 5
      else if c = CHR ''6'' then Some 6 else if c = CHR ''7'' then Some 7
      else if c = CHR ''8'' then Some 8 else if c = CHR ''9'' then Some 9
      else None)"

fun digits_value :: "nat \<Rightarrow> string \<Rightarrow> nat option" where
  "digits_value acc [] = Some acc"
| "digits_value acc (c # cs) =
     (case digit_of c of None \<Rightarrow> None | Some d \<Rightarrow> digits_value (10 * acc + d) cs)"

definition unsigned_literal :: "string \<Rightarrow> real option" where
  "unsigned_literal s =
     (let ip = takeWhile (\<lambda>c. c \<noteq> CHR ''.'') s;
          fp = drop 1 (dropWhile (\<lambda>c. c \<noteq> CHR ''.'') s)
      in if ip = [] \<and> fp = [] then None
         else (case (digits_value 0 ip, digits_value 0 fp) of
                 (Some a, Some b) \<Rightarrow> Some (real a + real b / 10 ^ length fp)
               | _ \<Rightarrow> None))"

definition float_literal :: "string \<Rightarrow> real option" where
  "float_literal s =
     (case s of
        [] \<Rightarrow> None
      | c # r \<Rightarrow>
          if c = CHR ''-'' then map_option uminus (unsigned_literal r)
          else if c = CHR ''+'' then unsigned_literal r
          else unsigned_literal s)"

subsection \<open>Shapes and the tensor of a data line\<close>

text \<open>An array of shape (3, 3), as every element of \<^verbatim>\<open>dipole_tensors\<close> is.\<close>

definition shape33 :: "real list list \<Rightarrow> bool" where
  "shape33 t = (length t = 3 \<and> length (t ! 0) = 3 \<and> length (t ! 1) = 3 \<and> length (t ! 2) = 3)"

text \<open>
  The tensor that the specification builds from the converted tokens of a dipolar
  line \<open>(id, xx, yy, zz, xy, xz, yz)\<close>: the diagonal from \<open>(xx, yy, zz)\<close>,
  \<open>(0,1) = (1,0) = xy\<close>, \<open>(0,2) = (2,0) = xz\<close>, \<open>(1,2) = (2,1) = yz\<close>.
\<close>

definition tensor_of :: "real list \<Rightarrow> real list list" where
  "tensor_of a =
     [[a ! 1, a ! 4, a ! 5],
      [a ! 4, a ! 2, a ! 6],
      [a ! 5, a ! 6, a ! 3]]"


text \<open>
  The contact value of a data line: the last token of the line, converted
  (\<^verbatim>\<open>float(next(f).split()[-1])\<close>).
\<close>

definition contact_value :: "(string \<Rightarrow> real option) \<Rightarrow> string \<Rightarrow> real \<Rightarrow> bool" where
  "contact_value py l v = (str_split l \<noteq> [] \<and> py (last (str_split l)) = Some v)"

text \<open>
  The tensor of a dipolar data line: every token of the line converts, there are at
  least seven of them, and the tensor is built from the tokens 1 to 6.
\<close>

definition row_tensor :: "(string \<Rightarrow> real option) \<Rightarrow> string \<Rightarrow> real list list \<Rightarrow> bool" where
  "row_tensor np l t =
     (case those (map np (str_split l)) of
        None \<Rightarrow> False
      | Some a \<Rightarrow> 7 \<le> length a \<and> t = tensor_of a)"

text \<open>The off-diagonal entries of a (3, 3) array agree in pairs.\<close>

definition sym33 :: "real list list \<Rightarrow> bool" where
  "sym33 t = (t ! 0 ! 1 = t ! 1 ! 0 \<and> t ! 0 ! 2 = t ! 2 ! 0 \<and> t ! 1 ! 2 = t ! 2 ! 1)"

text \<open>The shapes of the arrays: \<open>(natoms)\<close> and \<open>(natoms, 3, 3)\<close>.\<close>

definition wf_state :: "nat \<Rightarrow> scan_state \<Rightarrow> bool" where
  "wf_state n st =
     (length (contacts st) = n \<and> length (dipole_tensors st) = n \<and>
      list_all shape33 (dipole_tensors st))"

subsection \<open>Sample reports\<close>

text \<open>
  Reports in the format of VASP, used where a statement is evaluated at a concrete
  input, and the definitions that the evaluation unfolds.
\<close>

definition sample_outcar :: "string list" where
  "sample_outcar =
     ['' Total magnetic moment S=     2.0000000'',
      '' Fermi contact (isotropic) hyperfine coupling parameter (MHz)'',
      '' -------------------------------------------------'',
      ''  ion      A_pw      A_1PS     A_1AE     A_1c      A_tot'',
      '' -------------------------------------------------'',
      ''    1      -1.100    -0.200     -0.055     0.000    -1.355'',
      '' -------------------------------------------------'',
      '' Dipolar hyperfine coupling parameters (MHz)'',
      '' -------------------------------------------------'',
      ''  ion      A_xx      A_yy      A_zz      A_xy      A_xz      A_yz'',
      '' -------------------------------------------------'',
      ''    1     283.547   167.119  -450.667   -28.734   -15.587    58.553'',
      '' -------------------------------------------------'']"

lemmas eval_defs =
  extract_tensors_def init_state_def zeros33_def
  loop_body_def spin_part_def contact_part_def dipole_part_def
  re_totalspin_def re_contact_def re_dipole_def
  contact_block_def dipole_block_def skip_lines_def dipole_row_def store_row_def
  last_item_def to_float_def astype_float_def getitem_def setitem_def setitem3_def
  str_split_def isspace_def float_literal_def unsigned_literal_def digit_of_def


definition labelled_outcar :: "string list" where
  "labelled_outcar =
     ['' Dipolar hyperfine coupling parameters (MHz)'',
      '' ------------------------'',
      ''  ion      A_xx      A_yy      A_zz      A_xy      A_xz      A_yz'',
      '' ------------------------'',
      ''    1     1.0   2.0  -3.0   4.0   5.0    6.0'',
      ''   Fe2    1.0   2.0  -3.0   4.0   5.0    6.0'',
      '' ------------------------'']"

definition two_line_outcar :: "string list" where
  "two_line_outcar =
     ['' Fermi contact (isotropic) hyperfine coupling parameter (MHz)'',
      '' ------------------------'',
      ''  ion      A_1c      A_tot'',
      ''    1     0.000     1.000'',
      ''    2     0.000     2.000'']"

definition spin_outcar :: "string \<Rightarrow> string list" where
  "spin_outcar s =
     ('' Total magnetic moment S=     '' @ s) #
     ['' Fermi contact (isotropic) hyperfine coupling parameter (MHz)'',
      '' ------------------------'',
      ''  ion      A_1c      A_tot'',
      '' ------------------------'',
      ''    1     0.000    -1.355'',
      '' ------------------------'']"

definition degenerate_outcar :: "string list" where
  "degenerate_outcar =
     ['' Fermi contact (isotropic) hyperfine coupling parameter (MHz)'',
      '' ------------------------'',
      ''  ion      A_1c      A_tot'',
      '' ------------------------'',
      ''    1     0.000     1.500'',
      '' ------------------------'',
      '' Dipolar hyperfine coupling parameters (MHz)'',
      '' ------------------------'',
      ''  ion      A_xx      A_yy      A_zz      A_xy      A_xz      A_yz'',
      '' ------------------------'',
      ''    1     1.000   0.500  -1.500   0.250   0.000    0.000'',
      '' ------------------------'']"

text \<open>The record that the function returns on \<open>sample_outcar\<close>.\<close>

definition sample_result :: result where
  "sample_result =
     \<lparr>res_A_c = - 1.355 * gamma_mu,
      res_A_dip = [[283.547 * gamma_mu, - 28.734 * gamma_mu, - 15.587 * gamma_mu],
                   [- 28.734 * gamma_mu, 167.119 * gamma_mu, 58.553 * gamma_mu],
                   [- 15.587 * gamma_mu, 58.553 * gamma_mu, - 450.667 * gamma_mu]],
      res_A = [[283.547 * gamma_mu + - 1.355 * gamma_mu, - 28.734 * gamma_mu,
                - 15.587 * gamma_mu],
               [- 28.734 * gamma_mu, 167.119 * gamma_mu + - 1.355 * gamma_mu,
                58.553 * gamma_mu],
               [- 15.587 * gamma_mu, 58.553 * gamma_mu,
                - 450.667 * gamma_mu + - 1.355 * gamma_mu]],
      res_Bfield = [- 15.587 * gamma_mu / 2, 58.553 * gamma_mu / 2,
                    (- 450.667 * gamma_mu + - 1.355 * gamma_mu) / 2],
      res_B_magnitude =
        sqrt ((- 15.587 * gamma_mu / 2)\<^sup>2 + (58.553 * gamma_mu / 2)\<^sup>2 +
              ((- 450.667 * gamma_mu + - 1.355 * gamma_mu) / 2)\<^sup>2),
      res_theta =
        fold_angle (angle_deg ((- 450.667 * gamma_mu + - 1.355 * gamma_mu) / 2)
          (sqrt ((- 15.587 * gamma_mu / 2)\<^sup>2 + (58.553 * gamma_mu / 2)\<^sup>2 +
                 ((- 450.667 * gamma_mu + - 1.355 * gamma_mu) / 2)\<^sup>2)))\<rparr>"

section \<open>Facts about the parts of the function\<close>

subsection \<open>Tokens and rows\<close>

lemma ebind_eq_Inl: "ebind m f = Inl e \<longleftrightarrow> m = Inl e \<or> (\<exists>x. m = Inr x \<and> f x = Inl e)"
  by (cases m) simp_all

lemma split_acc_Nil_iff: "split_acc cur s = [] \<longleftrightarrow> cur = [] \<and> (\<forall>c\<in>set s. isspace c)"
  by (induction s arbitrary: cur) auto

lemma startswith_set: "startswith pat s \<Longrightarrow> set pat \<subseteq> set s"
  by (induction pat s rule: startswith.induct) auto

lemma re_search_set: "re_search pat s \<Longrightarrow> set pat \<subseteq> set s"
proof (induction s)
  case Nil
  then show ?case by simp
next
  case (Cons c s)
  from Cons.prems have "startswith pat (c # s) \<or> re_search pat s" by simp
  then show ?case
  proof
    assume "startswith pat (c # s)"
    then show ?thesis by (rule startswith_set)
  next
    assume "re_search pat s"
    then have "set pat \<subseteq> set s" by (rule Cons.IH)
    then show ?thesis by auto
  qed
qed

lemma re_totalspin_split: "re_totalspin line \<Longrightarrow> str_split line \<noteq> []"
proof -
  assume "re_totalspin line"
  then have "CHR ''T'' \<in> set line"
    using re_search_set [of "''Total magnetic moment S''" line] by (simp add: re_totalspin_def)
  moreover have "\<not> isspace CHR ''T''" by (simp add: isspace_def)
  ultimately show ?thesis by (auto simp: str_split_def split_acc_Nil_iff)
qed

lemma contact_row_step:
  "contact_value py r v \<Longrightarrow> i < length cs \<Longrightarrow>
   contact_rows py (Suc k) i (r # f) cs = contact_rows py k (Suc i) f (cs[i := v])"
  by (simp add: contact_value_def last_item_def to_float_def setitem_def)

lemma contact_rows_ok:
  "list_all2 (contact_value py) rows vs \<Longrightarrow> i + length vs \<le> length cs \<Longrightarrow>
   contact_rows py (length vs) i (rows @ rest) cs
     = Inr (rest, take i cs @ vs @ drop (i + length vs) cs)"
proof (induction rows vs arbitrary: i cs rule: list_all2_induct)
  case Nil
  then show ?case by simp
next
  case (Cons r rows v vs)
  have i: "i < length cs" using Cons.prems by simp
  have "contact_rows py (length (v # vs)) i ((r # rows) @ rest) cs
        = contact_rows py (length vs) (Suc i) (rows @ rest) (cs[i := v])"
    using contact_row_step [OF Cons.hyps(1) i] by simp
  also have "\<dots> = Inr (rest, take (Suc i) (cs[i := v]) @ vs @ drop (Suc i + length vs) (cs[i := v]))"
    using Cons.prems by (intro Cons.IH) simp
  also have "take (Suc i) (cs[i := v]) = take i cs @ [v]"
    using i by (simp add: take_Suc_conv_app_nth)
  also have "drop (Suc i + length vs) (cs[i := v]) = drop (i + length (v # vs)) cs"
    by simp
  finally show ?case by simp
qed

lemma contact_rows_conv:
  "contact_rows py k i f cs = Inr (f', cs') \<Longrightarrow>
   \<exists>rows vs. f = rows @ f' \<and> length vs = k \<and> list_all2 (contact_value py) rows vs \<and>
     (0 < k \<longrightarrow> i + k \<le> length cs) \<and> cs' = take i cs @ vs @ drop (i + k) cs"
proof (induction k arbitrary: i f cs)
  case 0
  then show ?case by simp
next
  case (Suc k)
  from Suc.prems obtain l f1 tok v where f: "f = l # f1"
    and tok: "last_item (str_split l) = Inr tok" and v: "to_float py tok = Inr v"
    and i: "i < length cs"
    and rec: "contact_rows py k (Suc i) f1 (cs[i := v]) = Inr (f', cs')"
    by (auto simp: ebind_eq_Inr next_line_eq_Inr setitem_def split: if_splits)
  have cv: "contact_value py l v"
    using tok v by (auto simp: contact_value_def last_item_def to_float_def split: if_splits option.splits)
  from Suc.IH [OF rec] obtain rows vs where
    r: "f1 = rows @ f'" "length vs = k" "list_all2 (contact_value py) rows vs"
       "0 < k \<longrightarrow> Suc i + k \<le> length (cs[i := v])"
       "cs' = take (Suc i) (cs[i := v]) @ vs @ drop (Suc i + k) (cs[i := v])"
    by blast
  have "take (Suc i) (cs[i := v]) = take i cs @ [v]"
    using i by (simp add: take_Suc_conv_app_nth)
  with r f cv i show ?case
    by (intro exI [of _ "l # rows"] exI [of _ "v # vs"]) auto
qed

lemma shape33_expand:
  "shape33 t \<Longrightarrow> \<exists>a b c d e f g h k. t = [[a, b, c], [d, e, f], [g, h, k]]"
proof -
  have three: "\<And>xs :: 'a list. length xs = 3 \<Longrightarrow> \<exists>x y z. xs = [x, y, z]"
    by (auto simp: numeral_3_eq_3 length_Suc_conv)
  assume s: "shape33 t"
  then obtain r0 r1 r2 where t: "t = [r0, r1, r2]"
    using three [of t] by (auto simp: shape33_def)
  with s have "length r0 = 3" "length r1 = 3" "length r2 = 3"
    by (simp_all add: shape33_def)
  then show ?thesis
    using three [of r0] three [of r1] three [of r2] t by auto
qed

lemma shape33_tensor_of [simp]: "shape33 (tensor_of a)"
  by (simp add: shape33_def tensor_of_def)

lemma shape33_zeros33 [simp]: "shape33 zeros33"
  by (simp add: shape33_def zeros33_def numeral_3_eq_3)

lemma store_row_ok:
  assumes "i < length ts" and "shape33 (ts ! i)" and "7 \<le> length a"
  shows "store_row ts i a = Inr (ts[i := tensor_of a])"
proof -
  from shape33_expand [OF assms(2)] obtain x0 x1 x2 x3 x4 x5 x6 x7 x8
    where t: "ts ! i = [[x0, x1, x2], [x3, x4, x5], [x6, x7, x8]]" by blast
  show ?thesis
    using assms(1,3) t
    by (simp add: store_row_def getitem_def setitem3_def tensor_of_def)
qed

lemma store_row_conv:
  assumes "store_row ts i a = Inr ts'"
  shows "i < length ts \<and> 7 \<le> length a"
proof -
  from assms have "getitem a 6 \<noteq> Inl IndexError"
    by (auto simp: store_row_def ebind_eq_Inr)
  moreover from assms have "\<exists>v ts1. setitem3 ts i 0 0 v = Inr ts1"
    by (auto simp: store_row_def ebind_eq_Inr)
  ultimately show ?thesis
    by (auto simp: getitem_def setitem3_def split: if_splits)
qed

lemma row_tensor_shape: "row_tensor np l t \<Longrightarrow> shape33 t"
  by (auto simp: row_tensor_def split: option.splits)

lemma row_tensor_sym: "row_tensor np l t \<Longrightarrow> sym33 t"
  by (auto simp: row_tensor_def sym33_def tensor_of_def split: option.splits)

lemma dipole_row_ok:
  "row_tensor np l t \<Longrightarrow> i < length ts \<Longrightarrow> shape33 (ts ! i) \<Longrightarrow>
   dipole_row np ts i l = Inr (ts[i := t])"
  by (auto simp: row_tensor_def dipole_row_def astype_float_def store_row_ok split: option.splits)

lemma dipole_row_conv:
  assumes "dipole_row np ts i l = Inr ts'"
  shows "i < length ts \<and> (shape33 (ts ! i) \<longrightarrow> (\<exists>t. row_tensor np l t \<and> ts' = ts[i := t]))"
proof -
  from assms obtain a where a: "those (map np (str_split l)) = Some a"
    and st: "store_row ts i a = Inr ts'"
    by (auto simp: dipole_row_def astype_float_def ebind_eq_Inr split: option.splits)
  from store_row_conv [OF st] have i: "i < length ts" and len: "7 \<le> length a" by simp_all
  have "row_tensor np l (tensor_of a)" using a len by (simp add: row_tensor_def)
  moreover have "shape33 (ts ! i) \<Longrightarrow> ts' = ts[i := tensor_of a]"
    using store_row_ok [OF i _ len] st by simp
  ultimately show ?thesis using i by blast
qed

lemma list_all_update:
  "list_all P xs \<Longrightarrow> P x \<Longrightarrow> list_all P (xs[i := x])"
  by (auto simp: list_all_iff dest: subsetD [OF set_update_subset_insert])

lemma dipole_rows_ok:
  "list_all2 (row_tensor np) rows new \<Longrightarrow> i + length new \<le> length ts \<Longrightarrow>
   list_all shape33 ts \<Longrightarrow>
   dipole_rows np (length new) i (rows @ rest) ts
     = Inr (rest, take i ts @ new @ drop (i + length new) ts)"
proof (induction rows new arbitrary: i ts rule: list_all2_induct)
  case Nil
  then show ?case by simp
next
  case (Cons r rows t new)
  have i: "i < length ts" using Cons.prems by simp
  then have sh: "shape33 (ts ! i)" using Cons.prems by (simp add: list_all_length)
  have all: "list_all shape33 (ts[i := t])"
    using Cons.prems(2) row_tensor_shape [OF Cons.hyps(1)] by (rule list_all_update)
  have "dipole_rows np (length (t # new)) i ((r # rows) @ rest) ts
        = dipole_rows np (length new) (Suc i) (rows @ rest) (ts[i := t])"
    using dipole_row_ok [OF Cons.hyps(1) i sh] by simp
  also have "\<dots> = Inr (rest, take (Suc i) (ts[i := t]) @ new @ drop (Suc i + length new) (ts[i := t]))"
    using Cons.prems(1) all by (intro Cons.IH) simp_all
  also have "take (Suc i) (ts[i := t]) = take i ts @ [t]"
    using i by (simp add: take_Suc_conv_app_nth)
  also have "drop (Suc i + length new) (ts[i := t]) = drop (i + length (t # new)) ts"
    by simp
  finally show ?case by simp
qed

lemma dipole_rows_conv:
  "dipole_rows np k i f ts = Inr (f', ts') \<Longrightarrow> list_all shape33 ts \<Longrightarrow>
   \<exists>rows new. f = rows @ f' \<and> length new = k \<and> list_all2 (row_tensor np) rows new \<and>
     (0 < k \<longrightarrow> i + k \<le> length ts) \<and> ts' = take i ts @ new @ drop (i + k) ts"
proof (induction k arbitrary: i f ts)
  case 0
  then show ?case by simp
next
  case (Suc k)
  from Suc.prems(1) obtain l f1 ts1 where f: "f = l # f1"
    and row: "dipole_row np ts i l = Inr ts1"
    and rec: "dipole_rows np k (Suc i) f1 ts1 = Inr (f', ts')"
    by (auto simp: ebind_eq_Inr next_line_eq_Inr)
  from dipole_row_conv [OF row] have i: "i < length ts" by simp
  then have "shape33 (ts ! i)" using Suc.prems(2) by (simp add: list_all_length)
  with dipole_row_conv [OF row] obtain t where t: "row_tensor np l t" and ts1: "ts1 = ts[i := t]"
    by blast
  have all: "list_all shape33 ts1"
    unfolding ts1 using Suc.prems(2) row_tensor_shape [OF t] by (rule list_all_update)
  from Suc.IH [OF rec all] obtain rows new where
    r: "f1 = rows @ f'" "length new = k" "list_all2 (row_tensor np) rows new"
       "0 < k \<longrightarrow> Suc i + k \<le> length ts1"
       "ts' = take (Suc i) ts1 @ new @ drop (Suc i + k) ts1"
    by blast
  have "take (Suc i) ts1 = take i ts @ [t]"
    unfolding ts1 using i by (simp add: take_Suc_conv_app_nth)
  with r f t i ts1 show ?case
    by (intro exI [of _ "l # rows"] exI [of _ "t # new"]) auto
qed

subsection \<open>Blocks, the loop body and the loop\<close>

lemma contact_block_ok:
  assumes "list_all2 (contact_value py) rows vs" and "length vs \<le> length cs"
  shows "contact_block py (length vs) (l1 # l2 # l3 # rows @ rest) cs
           = Inr (rest, vs @ drop (length vs) cs)"
  using contact_rows_ok [OF assms(1), of 0 cs rest] assms(2)
  by (simp add: contact_block_def skip_lines_def)

lemma contact_block_conv:
  assumes "contact_block py n f cs = Inr (f', cs')"
  shows "\<exists>l1 l2 l3 rows vs. f = l1 # l2 # l3 # rows @ f' \<and> length vs = n \<and>
           list_all2 (contact_value py) rows vs \<and> cs' = vs @ drop n cs"
proof -
  from assms obtain l1 l2 l3 f3 where f: "f = l1 # l2 # l3 # f3"
    and rows: "contact_rows py n 0 f3 cs = Inr (f', cs')"
    by (auto simp: contact_block_def ebind_eq_Inr skip_lines_eq_Inr)
  from contact_rows_conv [OF rows] f show ?thesis by auto
qed

lemma dipole_block_ok:
  assumes "list_all2 (row_tensor np) rows new" and "length new \<le> length ts"
    and "list_all shape33 ts"
  shows "dipole_block np (length new) (l1 # l2 # l3 # rows @ rest) ts
           = Inr (rest, new @ drop (length new) ts)"
  using dipole_rows_ok [OF assms(1) _ assms(3), of 0 rest] assms(2)
  by (simp add: dipole_block_def skip_lines_def)

lemma dipole_block_conv:
  assumes "dipole_block np n f ts = Inr (f', ts')" and "list_all shape33 ts"
  shows "\<exists>l1 l2 l3 rows new. f = l1 # l2 # l3 # rows @ f' \<and> length new = n \<and>
           list_all2 (row_tensor np) rows new \<and> ts' = new @ drop n ts"
proof -
  from assms(1) obtain l1 l2 l3 f3 where f: "f = l1 # l2 # l3 # f3"
    and rows: "dipole_rows np n 0 f3 ts = Inr (f', ts')"
    by (auto simp: dipole_block_def ebind_eq_Inr skip_lines_eq_Inr)
  from dipole_rows_conv [OF rows assms(2)] f show ?thesis by auto
qed

lemma list_all2_row_tensor:
  "list_all2 (row_tensor np) rows new \<Longrightarrow> list_all shape33 new \<and> list_all sym33 new"
  by (induction rows new rule: list_all2_induct) (auto dest: row_tensor_shape row_tensor_sym)

lemma spin_part_arrays:
  "spin_part py line st = Inr st' \<Longrightarrow>
   contacts st' = contacts st \<and> dipole_tensors st' = dipole_tensors st"
  by (auto simp: spin_part_def ebind_eq_Inr split: if_splits)

lemma contact_part_conv:
  assumes "contact_part py n line f st = Inr (f', st')"
  shows "dipole_tensors st' = dipole_tensors st \<and> totalS st' = totalS st \<and>
         (\<exists>k. f' = drop k f) \<and>
         (length (contacts st) = n \<longrightarrow> length (contacts st') = n)"
proof (cases "re_contact line")
  case False
  with assms show ?thesis by (auto simp: contact_part_def intro: exI [of _ 0])
next
  case True
  with assms obtain cs where b: "contact_block py n f (contacts st) = Inr (f', cs)"
    and st': "st' = st\<lparr>contacts := cs\<rparr>"
    by (auto simp: contact_part_def ebind_eq_Inr)
  from contact_block_consumes [OF b] have "\<exists>k. f' = drop k f" by blast
  moreover from contact_block_conv [OF b] have "length (contacts st) = n \<longrightarrow> length cs = n"
    by auto
  ultimately show ?thesis using st' by simp
qed

lemma dipole_part_conv:
  assumes "dipole_part np n line f st = Inr (f', st')"
    and "list_all shape33 (dipole_tensors st)"
  shows "contacts st' = contacts st \<and> totalS st' = totalS st \<and> (\<exists>k. f' = drop k f) \<and>
         list_all shape33 (dipole_tensors st') \<and>
         (length (dipole_tensors st) = n \<longrightarrow> length (dipole_tensors st') = n) \<and>
         (list_all sym33 (dipole_tensors st) \<longrightarrow> list_all sym33 (dipole_tensors st')) \<and>
         (\<not> re_dipole line \<longrightarrow> dipole_tensors st' = dipole_tensors st)"
proof (cases "re_dipole line")
  case False
  with assms show ?thesis by (auto simp: dipole_part_def intro: exI [of _ 0])
next
  case True
  with assms obtain ts where b: "dipole_block np n f (dipole_tensors st) = Inr (f', ts)"
    and st': "st' = st\<lparr>dipole_tensors := ts\<rparr>"
    by (auto simp: dipole_part_def ebind_eq_Inr)
  from dipole_block_consumes [OF b] have k: "\<exists>k. f' = drop k f" by blast
  from dipole_block_conv [OF b assms(2)] obtain rows new where
    new: "length new = n" "list_all2 (row_tensor np) rows new"
         "ts = new @ drop n (dipole_tensors st)"
    by blast
  from list_all2_row_tensor [OF new(2)] have "list_all shape33 new" "list_all sym33 new"
    by simp_all
  moreover have "list_all P (drop n xs)" if "list_all P xs" for P :: "real list list \<Rightarrow> bool" and xs
    using that by (auto simp: list_all_iff dest: in_set_dropD)
  ultimately show ?thesis
    using st' new k assms(2) True by auto
qed

lemma loop_body_conv:
  assumes "loop_body py np n line f st = Inr (f', st')" and "wf_state n st"
  shows "wf_state n st' \<and> (\<exists>k. f' = drop k f) \<and>
         (list_all sym33 (dipole_tensors st) \<longrightarrow> list_all sym33 (dipole_tensors st')) \<and>
         (\<not> re_dipole line \<longrightarrow> dipole_tensors st' = dipole_tensors st)"
proof -
  from assms(1) obtain st1 f1 st2 where
    s: "spin_part py line st = Inr st1"
    and c: "contact_part py n line f st1 = Inr (f1, st2)"
    and d: "dipole_part np n line f1 st2 = Inr (f', st')"
    by (auto simp: loop_body_def ebind_eq_Inr)
  note s' = spin_part_arrays [OF s] and c' = contact_part_conv [OF c]
  have sh: "list_all shape33 (dipole_tensors st2)"
    using assms(2) s' c' by (simp add: wf_state_def)
  note d' = dipole_part_conv [OF d sh]
  from c' d' obtain k1 k2 where "f1 = drop k1 f" "f' = drop k2 f1" by blast
  then have "f' = drop (k2 + k1) f" by simp
  then have "\<exists>k. f' = drop k f" ..
  then show ?thesis
    using assms(2) s' c' d' by (simp add: wf_state_def)
qed

lemma scan_lines_invariant:
  assumes "scan_lines py np n f st = Inr st'" and "wf_state n st"
  shows "wf_state n st' \<and>
         (list_all sym33 (dipole_tensors st) \<longrightarrow> list_all sym33 (dipole_tensors st')) \<and>
         ((\<forall>l\<in>set f. \<not> re_dipole l) \<longrightarrow> dipole_tensors st' = dipole_tensors st)"
  using assms
proof (induction py np n f st rule: scan_lines.induct)
  case (1 py np natoms st)
  then show ?case by simp
next
  case (2 py np natoms line f st)
  from "2.prems"(1) obtain f1 st1 where
    b: "loop_body py np natoms line f st = Inr (f1, st1)"
    and r: "scan_lines py np natoms f1 st1 = Inr st'"
    by (auto simp: ebind_eq_Inr)
  note b' = loop_body_conv [OF b "2.prems"(2)]
  from b' have wf1: "wf_state natoms st1" by simp
  note ih = "2.IH" [OF b refl r wf1]
  from b' obtain k where k: "f1 = drop k f" by blast
  have sub: "set f1 \<subseteq> set f" unfolding k by (rule set_drop_subset)
  have "wf_state natoms st'" using ih by simp
  moreover have "list_all sym33 (dipole_tensors st')" if "list_all sym33 (dipole_tensors st)"
  proof -
    from that b' have "list_all sym33 (dipole_tensors st1)" by simp
    with ih show ?thesis by simp
  qed
  moreover have "dipole_tensors st' = dipole_tensors st" if a: "\<forall>l\<in>set (line # f). \<not> re_dipole l"
  proof -
    from a have "\<not> re_dipole line" by simp
    with b' have e1: "dipole_tensors st1 = dipole_tensors st" by simp
    from a sub have "\<forall>l\<in>set f1. \<not> re_dipole l" by auto
    with ih have "dipole_tensors st' = dipole_tensors st1" by simp
    with e1 show ?thesis by simp
  qed
  ultimately show ?case by blast
qed

lemma wf_init_state [simp]: "wf_state n (init_state n)"
  by (simp add: wf_state_def init_state_def list_all_iff)

lemma iterations_wf:
  "(line, f, st) \<in> set (iterations py np n f0 st0) \<Longrightarrow> wf_state n st0 \<Longrightarrow> wf_state n st"
proof (induction py np n f0 st0 rule: iterations.induct)
  case (1 py np natoms st)
  then show ?case by simp
next
  case (2 py np natoms line0 f0 st0)
  show ?case
  proof (cases "(line, f, st) = (line0, f0, st0)")
    case True
    with "2.prems"(2) show ?thesis by simp
  next
    case False
    show ?thesis
    proof (cases "loop_body py np natoms line0 f0 st0")
      case (Inl e)
      with "2.prems"(1) False show ?thesis by simp
    next
      case (Inr r)
      obtain f1 st1 where r: "r = (f1, st1)" by (cases r)
      from "2.prems"(1) False Inr r
      have m: "(line, f, st) \<in> set (iterations py np natoms f1 st1)" by auto
      from loop_body_conv [OF Inr [unfolded r] "2.prems"(2)] have "wf_state natoms st1" by simp
      with "2.IH" [OF Inr r [symmetric] m] show ?thesis .
    qed
  qed
qed

lemma iterations_error:
  "(line, f, st) \<in> set (iterations py np n f0 st0) \<Longrightarrow>
   loop_body py np n line f st = Inl e \<Longrightarrow> scan_lines py np n f0 st0 = Inl e"
proof (induction py np n f0 st0 rule: iterations.induct)
  case (1 py np natoms st)
  then show ?case by simp
next
  case (2 py np natoms line0 f0 st0)
  show ?case
  proof (cases "(line, f, st) = (line0, f0, st0)")
    case True
    with "2.prems"(2) show ?thesis by simp
  next
    case False
    show ?thesis
    proof (cases "loop_body py np natoms line0 f0 st0")
      case (Inl e')
      with "2.prems"(1) False show ?thesis by simp
    next
      case (Inr r)
      obtain f1 st1 where r: "r = (f1, st1)" by (cases r)
      from "2.prems"(1) False Inr r
      have m: "(line, f, st) \<in> set (iterations py np natoms f1 st1)" by auto
      from "2.IH" [OF Inr r [symmetric] m "2.prems"(2)] Inr r show ?thesis by simp
    qed
  qed
qed


lemma get_hyperfine_scan_error:
  assumes "scan_lines py np (nat natoms) outcar (init_state (nat natoms)) = Inl e"
  shows "\<exists>e'. get_hyperfine py np outcar natoms muon_index = Inl e'"
  using assms by (simp add: get_hyperfine_def extract_tensors_def)

lemma sample_extract:
  "extract_tensors float_literal float_literal sample_outcar 1
     = Inr \<lparr>totalS = Some 2, contacts = [- 1.355],
            dipole_tensors = [[[283.547, - 28.734, - 15.587],
                               [- 28.734, 167.119, 58.553],
                               [- 15.587, 58.553, - 450.667]]]\<rparr>"
  by (simp add: sample_outcar_def eval_defs numeral_3_eq_3)

lemma extract_tensors_invariant:
  assumes "extract_tensors py np outcar natoms = Inr st"
  shows "wf_state (nat natoms) st \<and> list_all sym33 (dipole_tensors st)"
proof -
  from assms have s: "scan_lines py np (nat natoms) outcar (init_state (nat natoms)) = Inr st"
    by (simp add: extract_tensors_def split: if_splits)
  have "list_all sym33 (dipole_tensors (init_state (nat natoms)))"
    by (simp add: init_state_def list_all_iff sym33_def zeros33_def)
  with scan_lines_invariant [OF s wf_init_state] show ?thesis by simp
qed

lemma sym33_entries: "sym33 t \<Longrightarrow> i < 3 \<Longrightarrow> j < 3 \<Longrightarrow> t ! i ! j = t ! j ! i"
proof -
  assume s: "sym33 t" and "i < 3" "j < 3"
  then have "i = 0 \<or> i = 1 \<or> i = 2" "j = 0 \<or> j = 1 \<or> j = 2" by auto
  with s show ?thesis by (auto simp: sym33_def)
qed

lemma store_row_entries:
  assumes "store_row ts k a = Inr ts'" and "shape33 (ts ! k)"
  shows "ts' ! k = tensor_of a"
proof -
  from store_row_conv [OF assms(1)] have k: "k < length ts" and a: "7 \<le> length a" by simp_all
  from store_row_ok [OF k assms(2) a] assms(1) have "ts' = ts[k := tensor_of a]" by simp
  with k show ?thesis by simp
qed

lemma loop_body_plain:
  "\<not> re_totalspin l \<Longrightarrow> \<not> re_contact l \<Longrightarrow> \<not> re_dipole l \<Longrightarrow>
   loop_body py np n l f st = Inr (f, st)"
  by (simp add: loop_body_def spin_part_def contact_part_def dipole_part_def)

lemma scan_lines_plain_prefix:
  "\<forall>l\<in>set pre. \<not> re_totalspin l \<and> \<not> re_contact l \<and> \<not> re_dipole l \<Longrightarrow>
   scan_lines py np n (pre @ f) st = scan_lines py np n f st"
  by (induction pre) (simp_all add: loop_body_plain)

lemma loop_body_contact_only:
  assumes "re_contact hdr" and "\<not> re_totalspin hdr" and "\<not> re_dipole hdr"
    and "list_all2 (contact_value py) rows vs" and "length (contacts st) = length vs"
  shows "loop_body py np (length vs) hdr (l1 # l2 # l3 # rows @ post) st
           = Inr (post, st\<lparr>contacts := vs\<rparr>)"
  using assms contact_block_ok [OF assms(4), of "contacts st" l1 l2 l3 post]
  by (simp add: loop_body_def spin_part_def contact_part_def dipole_part_def)

lemma those_map_Some: "those (map Some a) = Some a"
  by (induction a) simp_all

lemma those_eq_Some_iff: "those xs = Some a \<longleftrightarrow> xs = map Some a"
proof
  show "those xs = Some a \<Longrightarrow> xs = map Some a"
  proof (induction xs arbitrary: a)
    case Nil
    then show ?case by simp
  next
    case (Cons x xs)
    then show ?case by (auto split: option.splits)
  qed
next
  show "xs = map Some a \<Longrightarrow> those xs = Some a"
    by (simp add: those_map_Some)
qed

lemma astype_float_eq_Inr: "astype_float np toks = Inr a \<longleftrightarrow> map np toks = map Some a"
  by (auto simp: astype_float_def those_eq_Some_iff those_map_Some split: option.splits)

lemma astype_float_bad_token:
  assumes "tok \<in> set toks" and "np tok = None"
  shows "astype_float np toks = Inl ValueError"
proof (cases "astype_float np toks")
  case (Inl e)
  then show ?thesis by (auto simp: astype_float_def split: option.splits)
next
  case (Inr a)
  then have "map np toks = map Some a" by (simp add: astype_float_eq_Inr)
  then have "np tok \<in> set (map Some a)" using assms(1) by (metis image_eqI set_map)
  with assms(2) show ?thesis by auto
qed

lemma dipole_rows_bad_token:
  "j < k \<Longrightarrow> j < length f \<Longrightarrow> tok \<in> set (str_split (f ! j)) \<Longrightarrow> np tok = None \<Longrightarrow>
   dipole_rows np k i f ts \<noteq> Inr r"
proof (induction k arbitrary: i f ts j)
  case 0
  then show ?case by simp
next
  case (Suc k)
  from Suc.prems(2) obtain l f1 where f: "f = l # f1" by (cases f) auto
  show ?case
  proof (cases j)
    case 0
    with Suc.prems f have "astype_float np (str_split l) = Inl ValueError"
      by (auto intro: astype_float_bad_token)
    then show ?thesis by (simp add: f dipole_row_def)
  next
    case (Suc j')
    with Suc.prems f have "j' < k" "j' < length f1" "tok \<in> set (str_split (f1 ! j'))"
      by simp_all
    from Suc.IH [OF this Suc.prems(4)] show ?thesis
      by (auto simp: f ebind_eq_Inr)
  qed
qed

lemma dipole_block_bad_token:
  assumes "k < n" and "k + 3 < length f" and "tok \<in> set (str_split (f ! (k + 3)))"
    and "np tok = None"
  shows "dipole_block np n f ts \<noteq> Inr r"
proof
  assume "dipole_block np n f ts = Inr r"
  then obtain l1 l2 l3 f3 where f: "f = l1 # l2 # l3 # f3"
    and rows: "dipole_rows np n 0 f3 ts = Inr r"
    by (auto simp: dipole_block_def ebind_eq_Inr skip_lines_eq_Inr)
  from f assms have "k < length f3" "tok \<in> set (str_split (f3 ! k))"
    by (simp_all add: numeral_3_eq_3)
  from dipole_rows_bad_token [where np = np and tok = tok, OF assms(1) this assms(4)] rows
  show False by simp
qed

lemma loop_body_bad_token:
  assumes "re_dipole line" and "\<not> re_contact line"
    and "k < n" and "k + 3 < length f" and "tok \<in> set (str_split (f ! (k + 3)))"
    and "np tok = None"
  shows "loop_body py np n line f st \<noteq> Inr r"
proof
  assume "loop_body py np n line f st = Inr r"
  with assms(1,2) obtain st1 where "dipole_part np n line f st1 = Inr r"
    by (auto simp: loop_body_def contact_part_def ebind_eq_Inr)
  with assms(1) obtain r' where "dipole_block np n f (dipole_tensors st1) = Inr r'"
    by (auto simp: dipole_part_def ebind_eq_Inr)
  with dipole_block_bad_token [where np = np and tok = tok, OF assms(3-6)] show False by simp
qed

lemma loop_body_contact_iff:
  assumes "re_contact line" and "\<not> re_totalspin line" and "\<not> re_dipole line"
    and "length (contacts st) = n"
  shows "loop_body py np n line f st = Inr (f', st') \<longleftrightarrow>
         (\<exists>l1 l2 l3 rows vs. f = l1 # l2 # l3 # rows @ f' \<and> length vs = n \<and>
            list_all2 (contact_value py) rows vs \<and> st' = st\<lparr>contacts := vs\<rparr>)"
proof
  assume "loop_body py np n line f st = Inr (f', st')"
  with assms(1-3) obtain cs where b: "contact_block py n f (contacts st) = Inr (f', cs)"
    and st': "st' = st\<lparr>contacts := cs\<rparr>"
    by (auto simp: loop_body_def spin_part_def contact_part_def dipole_part_def ebind_eq_Inr)
  from contact_block_conv [OF b] assms(4) st'
  show "\<exists>l1 l2 l3 rows vs. f = l1 # l2 # l3 # rows @ f' \<and> length vs = n \<and>
            list_all2 (contact_value py) rows vs \<and> st' = st\<lparr>contacts := vs\<rparr>"
    by auto
next
  assume "\<exists>l1 l2 l3 rows vs. f = l1 # l2 # l3 # rows @ f' \<and> length vs = n \<and>
            list_all2 (contact_value py) rows vs \<and> st' = st\<lparr>contacts := vs\<rparr>"
  then obtain l1 l2 l3 rows vs where f: "f = l1 # l2 # l3 # rows @ f'" and n: "length vs = n"
    and rows: "list_all2 (contact_value py) rows vs" and st': "st' = st\<lparr>contacts := vs\<rparr>"
    by blast
  from assms(4) n have "length (contacts st) = length vs" by simp
  from loop_body_contact_only [OF assms(1-3) rows this] f n st'
  show "loop_body py np n line f st = Inr (f', st')" by simp
qed

lemma loop_body_dipole_iff:
  assumes "re_dipole line" and "\<not> re_totalspin line" and "\<not> re_contact line"
    and "length (dipole_tensors st) = n" and "list_all shape33 (dipole_tensors st)"
  shows "loop_body py np n line f st = Inr (f', st') \<longleftrightarrow>
         (\<exists>l1 l2 l3 rows new. f = l1 # l2 # l3 # rows @ f' \<and> length new = n \<and>
            list_all2 (row_tensor np) rows new \<and> st' = st\<lparr>dipole_tensors := new\<rparr>)"
proof
  assume "loop_body py np n line f st = Inr (f', st')"
  with assms(1-3) obtain ts where b: "dipole_block np n f (dipole_tensors st) = Inr (f', ts)"
    and st': "st' = st\<lparr>dipole_tensors := ts\<rparr>"
    by (auto simp: loop_body_def spin_part_def contact_part_def dipole_part_def ebind_eq_Inr)
  from dipole_block_conv [OF b assms(5)] assms(4) st'
  show "\<exists>l1 l2 l3 rows new. f = l1 # l2 # l3 # rows @ f' \<and> length new = n \<and>
            list_all2 (row_tensor np) rows new \<and> st' = st\<lparr>dipole_tensors := new\<rparr>"
    by auto
next
  assume "\<exists>l1 l2 l3 rows new. f = l1 # l2 # l3 # rows @ f' \<and> length new = n \<and>
            list_all2 (row_tensor np) rows new \<and> st' = st\<lparr>dipole_tensors := new\<rparr>"
  then obtain l1 l2 l3 rows new where f: "f = l1 # l2 # l3 # rows @ f'" and n: "length new = n"
    and rows: "list_all2 (row_tensor np) rows new" and st': "st' = st\<lparr>dipole_tensors := new\<rparr>"
    by blast
  from assms(4) n have "length new \<le> length (dipole_tensors st)" by simp
  from dipole_block_ok [OF rows this assms(5), of l1 l2 l3 f'] assms(1-4) f n st'
  show "loop_body py np n line f st = Inr (f', st')"
    by (simp add: loop_body_def spin_part_def contact_part_def dipole_part_def)
qed

lemma dipole_part_totalS:
  "dipole_part np n line f st = Inr (f', st') \<Longrightarrow> totalS st' = totalS st"
  by (auto simp: dipole_part_def ebind_eq_Inr split: if_splits)

lemma loop_body_totalS:
  assumes "re_totalspin line" and "loop_body py np n line f st = Inr (f', st')"
  shows "str_split line \<noteq> [] \<and> totalS st' = py (last (str_split line)) \<and> totalS st' \<noteq> None"
proof -
  from assms(2) obtain st1 f1 st2 where
    s: "spin_part py line st = Inr st1"
    and c: "contact_part py n line f st1 = Inr (f1, st2)"
    and d: "dipole_part np n line f1 st2 = Inr (f', st')"
    by (auto simp: loop_body_def ebind_eq_Inr)
  from s assms(1) obtain v where "py (last (str_split line)) = Some v" "totalS st1 = Some v"
    by (auto simp: spin_part_def ebind_eq_Inr last_item_def to_float_def
        split: if_splits option.splits)
  with contact_part_conv [OF c] dipole_part_totalS [OF d] re_totalspin_split [OF assms(1)]
  show ?thesis by simp
qed

lemma loop_body_totalS_error:
  assumes "re_totalspin line" and "py (last (str_split line)) = None"
  shows "loop_body py np n line f st = Inl ValueError"
  using assms re_totalspin_split [OF assms(1)]
  by (simp add: loop_body_def spin_part_def last_item_def to_float_def)

lemma synthesize_returns:
  assumes "pyindex cs idx = Inr c" and "pyindex ts idx = Inr d" and "shape33 d"
  shows "\<exists>res. synthesize g cs ts idx = Inr res"
proof -
  from shape33_expand [OF assms(3)] obtain x0 x1 x2 x3 x4 x5 x6 x7 x8
    where "d = [[x0, x1, x2], [x3, x4, x5], [x6, x7, x8]]" by blast
  with assms(1,2) show ?thesis
    by (simp add: synthesize_def scale_def madd_def eye3_def getitem_def Let_def)
qed









subsection \<open>The field from the arrays\<close>

lemma pyindex_valid:
  assumes "- int (length xs) \<le> idx" and "idx < int (length xs)"
  shows "pyindex xs idx = Inr (xs ! nat (if idx < 0 then idx + int (length xs) else idx))"
  using assms by (simp add: pyindex_def Let_def)

lemma pyindex_in_set: "pyindex xs idx = Inr x \<Longrightarrow> x \<in> set xs"
  by (auto simp: pyindex_def Let_def split: if_splits)

lemma synthesize_expanded:
  assumes "pyindex cs idx = Inr c"
    and "pyindex ts idx = Inr [[x0, x1, x2], [x3, x4, x5], [x6, x7, x8]]"
  shows "synthesize g cs ts idx =
     Inr \<lparr>res_A_c = c * g,
          res_A_dip = [[x0 * g, x1 * g, x2 * g], [x3 * g, x4 * g, x5 * g],
                       [x6 * g, x7 * g, x8 * g]],
          res_A = [[x0 * g + c * g, x1 * g, x2 * g], [x3 * g, x4 * g + c * g, x5 * g],
                   [x6 * g, x7 * g, x8 * g + c * g]],
          res_Bfield = [x6 * g / 2, x7 * g / 2, (x8 * g + c * g) / 2],
          res_B_magnitude =
            sqrt ((x6 * g / 2)\<^sup>2 + (x7 * g / 2)\<^sup>2 + ((x8 * g + c * g) / 2)\<^sup>2),
          res_theta =
            fold_angle (angle_deg ((x8 * g + c * g) / 2)
              (sqrt ((x6 * g / 2)\<^sup>2 + (x7 * g / 2)\<^sup>2 + ((x8 * g + c * g) / 2)\<^sup>2)))\<rparr>"
  using assms
  by (simp add: synthesize_def scale_def madd_def eye3_def getitem_def Let_def
      norm2_def dot_def power2_eq_square add.assoc)

lemma synthesize_theta:
  assumes "synthesize g cs ts idx = Inr res"
  shows "res_B_magnitude res = norm2 (res_Bfield res) \<and>
         res_theta res = fold_angle (angle_deg (dot (res_Bfield res) [0, 0, 1]) (res_B_magnitude res))"
  using assms
  by (auto simp: synthesize_def ebind_eq_Inr Let_def)

lemma sum_list_squares_nonneg: "0 \<le> sum_list (map (\<lambda>x. x * x) (v :: real list))"
  by (induction v) simp_all

lemma abs_dot_z_le_norm2: "\<bar>dot v [0, 0, 1]\<bar> \<le> norm2 v"
proof -
  have n: "0 \<le> norm2 v" by (simp add: norm2_def sum_list_squares_nonneg)
  consider "v = []" | a where "v = [a]" | a b where "v = [a, b]"
    | a b c w where "v = a # b # c # w"
    by (metis list.exhaust)
  then show ?thesis
  proof cases
    case 4
    have "\<bar>c\<bar> = sqrt (c * c)" by simp
    also have "\<dots> \<le> sqrt (a * a + (b * b + (c * c + sum_list (map (\<lambda>x. x * x) w))))"
      using sum_list_squares_nonneg [of w] by (intro real_sqrt_le_mono) (simp add: add_nonneg_nonneg)
    finally show ?thesis by (simp add: 4 dot_def norm2_def)
  qed (use n in \<open>simp_all add: dot_def\<close>)
qed

lemma norm2_zero_dot: "norm2 v = 0 \<Longrightarrow> dot v [0, 0, 1] = 0"
  using abs_dot_z_le_norm2 [of v] by simp

lemma degenerate_extract:
  "extract_tensors float_literal float_literal degenerate_outcar 1
     = Inr \<lparr>totalS = None, contacts = [1.5],
            dipole_tensors = [[[1, 0.25, 0], [0.25, 0.5, 0], [0, 0, - 1.5]]]\<rparr>"
  by (simp add: degenerate_outcar_def eval_defs numeral_3_eq_3)

lemma sample_synthesize:
  "synthesize gamma_mu [- 1.355]
     [[[283.547, - 28.734, - 15.587], [- 28.734, 167.119, 58.553],
       [- 15.587, 58.553, - 450.667]]] (- 1) = Inr sample_result"
proof -
  have c: "pyindex [- 1.355 :: real] (- 1) = Inr (- 1.355)" by (simp add: pyindex_def)
  have d: "pyindex [[[283.547, - 28.734, - 15.587], [- 28.734, 167.119, 58.553],
       [- 15.587, 58.553, - 450.667 :: real]]] (- 1)
      = Inr [[283.547, - 28.734, - 15.587], [- 28.734, 167.119, 58.553],
       [- 15.587, 58.553, - 450.667]]"
    by (simp add: pyindex_def)
  show ?thesis
    unfolding synthesize_expanded [OF c d] sample_result_def ..
qed

lemma sample_get_hyperfine:
  "get_hyperfine float_literal float_literal sample_outcar 1 (- 1) = Inr sample_result"
  by (simp only: get_hyperfine_def sample_extract ebind_Inr scan_state.select_convs
      sample_synthesize)

lemma gamma_mu_pos: "0 < gamma_mu"
  by (simp add: gamma_mu_def)

lemma sample_magnitude_pos: "0 < res_B_magnitude sample_result"
proof -
  have "0 < (58.553 * gamma_mu / 2)\<^sup>2" using gamma_mu_pos by simp
  then have "0 < (- 15.587 * gamma_mu / 2)\<^sup>2 + (58.553 * gamma_mu / 2)\<^sup>2 +
              ((- 450.667 * gamma_mu + - 1.355 * gamma_mu) / 2)\<^sup>2"
    by (intro add_pos_nonneg add_nonneg_pos) simp_all
  then show ?thesis by (simp add: sample_result_def)
qed

lemma get_hyperfine_eq_Inr:
  "get_hyperfine py np outcar natoms idx = Inr res \<longleftrightarrow>
   (\<exists>st. extract_tensors py np outcar natoms = Inr st \<and>
      synthesize gamma_mu (contacts st) (dipole_tensors st) idx = Inr res)"
  by (simp add: get_hyperfine_def ebind_eq_Inr)






lemma synthesize_zero_magnitude:
  assumes "synthesize g cs ts idx = Inr res" and "res_B_magnitude res = 0"
  shows "res_theta res = NaN"
  using synthesize_theta [OF assms(1)] assms(2)
  by (simp add: angle_deg_def fold_angle_def)

lemma synthesize_valid_index:
  assumes "- int (length cs) \<le> idx" and "idx < int (length cs)"
    and "length ts = length cs" and "list_all shape33 ts"
  shows "\<exists>res. synthesize g cs ts idx = Inr res"
proof -
  let ?k = "nat (if idx < 0 then idx + int (length cs) else idx)"
  have c: "pyindex cs idx = Inr (cs ! ?k)" using assms(1,2) by (rule pyindex_valid)
  have d: "pyindex ts idx = Inr (ts ! ?k)"
    using pyindex_valid [of ts idx] assms(1-3) by simp
  from pyindex_in_set [OF d] assms(4) have "shape33 (ts ! ?k)" by (simp add: list_all_iff)
  with c d show ?thesis by (rule synthesize_returns)
qed

lemma get_hyperfine_valid_index:
  assumes "extract_tensors py np outcar natoms = Inr st"
    and "- natoms \<le> idx" and "idx < natoms"
  shows "\<exists>res. get_hyperfine py np outcar natoms idx = Inr res"
proof -
  from extract_tensors_invariant [OF assms(1)] have wf: "wf_state (nat natoms) st" by simp
  from assms(2,3) have n: "int (nat natoms) = natoms" by simp
  from wf n assms(2,3)
  have "\<exists>res. synthesize gamma_mu (contacts st) (dipole_tensors st) idx = Inr res"
    by (intro synthesize_valid_index) (simp_all add: wf_state_def)
  with assms(1) show ?thesis by (simp add: get_hyperfine_def)
qed

subsection \<open>Numerical bounds\<close>

text \<open>
  Bounds of \<open>pi\<close> from the sine series at \<open>pi / 6\<close>, and of the angle of the sample
  from the cosine series.
\<close>

lemma sin_taylor_11:
  "(\<Sum>m<11. sin_coeff m * x ^ m)
     = x - x ^ 3 / 6 + x ^ 5 / 120 - x ^ 7 / 5040 + x ^ 9 / 362880" for x :: real
  by (simp add: lessThan_nat_numeral lessThan_Suc sin_coeff_def fact_numeral)

lemma sin_series_bound:
  "\<bar>sin x - (x - x ^ 3 / 6 + x ^ 5 / 120 - x ^ 7 / 5040 + x ^ 9 / 362880)\<bar>
     \<le> \<bar>x\<bar> ^ 11 / 39916800" for x :: real
proof -
  have "inverse (fact 11 :: real) * \<bar>x\<bar> ^ 11 = \<bar>x\<bar> ^ 11 / 39916800"
    by (simp add: fact_numeral)
  with Maclaurin_sin_bound [of x 11] show ?thesis
    unfolding sin_taylor_11 by simp
qed

lemma sin_upper:
  "sin x \<le> x - x ^ 3 / 6 + x ^ 5 / 120 - x ^ 7 / 5040 + x ^ 9 / 362880 + \<bar>x\<bar> ^ 11 / 39916800"
  for x :: real
  using sin_series_bound [of x] by linarith

lemma sin_lower:
  "x - x ^ 3 / 6 + x ^ 5 / 120 - x ^ 7 / 5040 + x ^ 9 / 362880 - \<bar>x\<bar> ^ 11 / 39916800 \<le> sin x"
  for x :: real
  using sin_series_bound [of x] by linarith

lemma pi_lower: "3.1415926 < pi"
proof -
  let ?x = "3.1415926 / 6 :: real"
  have "sin ?x < 1 / 2"
    by (rule le_less_trans [OF sin_upper]) (simp add: power_numeral_reduce)
  then have "sin ?x < sin (pi / 6)" by (simp add: sin_30)
  moreover have "- (pi / 2) \<le> ?x" "?x \<le> pi / 2" using pi_ge_two by simp_all
  ultimately have "?x < pi / 6"
    by (subst (asm) sin_mono_less_eq) simp_all
  then show ?thesis by simp
qed

lemma pi_upper: "pi < 3.1415927"
proof -
  let ?x = "3.1415927 / 6 :: real"
  have "1 / 2 < sin ?x"
    by (rule less_le_trans [OF _ sin_lower]) (simp add: power_numeral_reduce)
  then have "sin (pi / 6) < sin ?x" by (simp add: sin_30)
  moreover have "- (pi / 2) \<le> ?x" "?x \<le> pi / 2" using pi_ge_two by simp_all
  ultimately have "pi / 6 < ?x"
    by (subst (asm) sin_mono_less_eq) simp_all
  then show ?thesis by simp
qed

lemma cos_taylor_6:
  "(\<Sum>m<6. cos_coeff m * x ^ m) = 1 - x\<^sup>2 / 2 + x ^ 4 / 24" for x :: real
  by (simp add: lessThan_nat_numeral lessThan_Suc cos_coeff_def fact_numeral)

lemma cos_series_bound:
  "\<bar>cos x - (1 - x\<^sup>2 / 2 + x ^ 4 / 24)\<bar> \<le> x ^ 6 / 720" for x :: real
proof -
  from Maclaurin_cos_expansion [of x 6] obtain t where
    c: "cos x = (\<Sum>m<6. cos_coeff m * x ^ m) + cos (t + 1 / 2 * real 6 * pi) / fact 6 * x ^ 6"
    by blast
  have "\<bar>cos x - (1 - x\<^sup>2 / 2 + x ^ 4 / 24)\<bar>
      = \<bar>cos (t + 1 / 2 * real 6 * pi)\<bar> * (x ^ 6 / 720)"
    unfolding c cos_taylor_6 by (simp add: fact_numeral abs_mult)
  also have "\<dots> \<le> 1 * (x ^ 6 / 720)"
    by (intro mult_right_mono) simp_all
  finally show ?thesis by simp
qed

lemma sqrt_s_bounds:
  "228.0325 < sqrt 51998.8242155" "sqrt 51998.8242155 < 228.0326"
proof -
  have "228.0325 = sqrt (228.0325\<^sup>2)" by simp
  also have "\<dots> < sqrt 51998.8242155"
    by (subst real_sqrt_less_iff) (simp add: power2_eq_square)
  finally show "228.0325 < sqrt 51998.8242155" .
  have "sqrt 51998.8242155 < sqrt (228.0326\<^sup>2)"
    by (subst real_sqrt_less_iff) (simp add: power2_eq_square)
  then show "sqrt 51998.8242155 < 228.0326" by simp
qed

lemma arccos_q_bounds:
  "7.55 * pi / 180 < arccos (226.011 / sqrt 51998.8242155)"
  "arccos (226.011 / sqrt 51998.8242155) < 7.65 * pi / 180"
proof -
  let ?q = "226.011 / sqrt 51998.8242155 :: real"
  have s: "0 < sqrt 51998.8242155" using sqrt_s_bounds(1) by simp
  have ql: "226.011 / 228.0326 < ?q"
    using s sqrt_s_bounds(2) by (intro divide_strict_left_mono) simp_all
  have qh: "?q < 226.011 / 228.0325"
    using s sqrt_s_bounds(1) by (intro divide_strict_left_mono) simp_all
  have "(0 :: real) < 226.011 / 228.0326" "226.011 / 228.0325 < (1 :: real)" by simp_all
  with ql qh have q: "- 1 \<le> ?q" "?q \<le> 1" by linarith+
  note a = arccos [OF q]
  let ?xl = "7.55 * 3.1415927 / 180 :: real" and ?xh = "7.65 * 3.1415926 / 180 :: real"
  have pi3: "3 < pi" using pi_lower by simp
  \<comment> \<open>upper bound of the angle\<close>
  have "cos (7.65 * pi / 180) \<le> cos ?xh"
    using pi_lower pi3 by (intro cos_monotone_0_pi_le) simp_all
  also have "\<dots> \<le> 1 - ?xh\<^sup>2 / 2 + ?xh ^ 4 / 24 + ?xh ^ 6 / 720"
    using cos_series_bound [of ?xh] by linarith
  also have "\<dots> < 226.011 / 228.0326"
    by (simp add: power_numeral_reduce power2_eq_square)
  also note ql
  finally have "cos (7.65 * pi / 180) < cos (arccos ?q)" using a by simp
  then show "arccos ?q < 7.65 * pi / 180"
    using a pi3 by (subst (asm) cos_mono_less_eq) simp_all
  \<comment> \<open>lower bound of the angle\<close>
  note qh
  also have "226.011 / 228.0325 < 1 - ?xl\<^sup>2 / 2 + ?xl ^ 4 / 24 - ?xl ^ 6 / 720"
    by (simp add: power_numeral_reduce power2_eq_square)
  also have "\<dots> \<le> cos ?xl"
    using cos_series_bound [of ?xl] by linarith
  also have "\<dots> \<le> cos (7.55 * pi / 180)"
    using pi_upper pi3 by (intro cos_monotone_0_pi_le) simp_all
  finally have "cos (arccos ?q) < cos (7.55 * pi / 180)" using a by simp
  then show "7.55 * pi / 180 < arccos ?q"
    using a pi3 by (subst (asm) cos_mono_less_eq) simp_all
qed

lemma gamma_mu_bounds: "135.538894 < gamma_mu" "gamma_mu < 135.538899"
proof -
  have "135.538894 < 851.616 / (2 * 3.1415927 :: real)" by simp
  also have "\<dots> < 851.616 / (2 * pi)"
    using pi_upper pi_gt_zero by (intro divide_strict_left_mono) simp_all
  finally show "135.538894 < gamma_mu" by (simp add: gamma_mu_def)
  have "851.616 / (2 * pi) < 851.616 / (2 * 3.1415926 :: real)"
    using pi_lower by (intro divide_strict_left_mono) simp_all
  also have "\<dots> < 135.538899" by simp
  finally show "gamma_mu < 135.538899" by (simp add: gamma_mu_def)
qed

lemma sample_field:
  "res_Bfield sample_result
     = [gamma_mu * (- 7.7935), gamma_mu * 29.2765, gamma_mu * (- 226.011)]"
  by (simp add: sample_result_def)

lemma sample_magnitude: "res_B_magnitude sample_result = gamma_mu * sqrt 51998.8242155"
proof -
  have "(- 15.587 * gamma_mu / 2)\<^sup>2 + (58.553 * gamma_mu / 2)\<^sup>2 +
        ((- 450.667 * gamma_mu + - 1.355 * gamma_mu) / 2)\<^sup>2
      = gamma_mu\<^sup>2 * 51998.8242155"
    by (simp add: power2_eq_square algebra_simps)
  then have "res_B_magnitude sample_result = sqrt (gamma_mu\<^sup>2 * 51998.8242155)"
    by (simp add: sample_result_def)
  also have "\<dots> = sqrt (gamma_mu\<^sup>2) * sqrt 51998.8242155"
    by (rule real_sqrt_mult)
  also have "sqrt (gamma_mu\<^sup>2) = gamma_mu"
    using gamma_mu_pos by simp
  finally show ?thesis .
qed

lemma sample_theta:
  "res_theta sample_result = Num (180 * arccos (226.011 / sqrt 51998.8242155) / pi)"
proof -
  let ?q = "226.011 / sqrt 51998.8242155 :: real"
  let ?m = "gamma_mu * sqrt 51998.8242155"
  have s: "0 < sqrt 51998.8242155" using sqrt_s_bounds(1) by simp
  have m: "0 < ?m" using gamma_mu_pos s by simp
  have "(0 :: real) < 226.011 / 228.0326" "226.011 / 228.0325 < (1 :: real)" by simp_all
  moreover have "226.011 / 228.0326 < ?q"
    using s sqrt_s_bounds(2) by (intro divide_strict_left_mono) simp_all
  moreover have "?q < 226.011 / 228.0325"
    using s sqrt_s_bounds(1) by (intro divide_strict_left_mono) simp_all
  ultimately have q: "- 1 \<le> ?q" "?q \<le> 1" "0 < ?q" by linarith+
  have d: "(- 450.667 * gamma_mu + - 1.355 * gamma_mu) / 2 / ?m = - ?q"
    using gamma_mu_pos by (simp add: field_simps)
  have th: "res_theta sample_result
      = fold_angle (angle_deg ((- 450.667 * gamma_mu + - 1.355 * gamma_mu) / 2) ?m)"
    using sample_magnitude by (simp add: sample_result_def)
  have nz: "?m \<noteq> 0" using m by (rule less_imp_neq [symmetric])
  have ab: "\<not> \<bar>- ?q\<bar> > 1" using q by linarith
  have "angle_deg ((- 450.667 * gamma_mu + - 1.355 * gamma_mu) / 2) ?m
      = Num (180 * arccos (- ?q) / pi)"
    unfolding angle_deg_def d using nz ab by (simp only: simp_thms if_False)
  also have "arccos (- ?q) = pi - arccos ?q" using q by (intro arccos_minus) simp_all
  finally have a: "res_theta sample_result = fold_angle (Num (180 * (pi - arccos ?q) / pi))"
    using th by simp
  have "180 * (pi - arccos ?q) / pi = 180 - 180 * arccos ?q / pi"
    by (simp add: field_simps)
  moreover have "180 * arccos ?q / pi < 180 * (7.65 * pi / 180) / pi"
    using arccos_q_bounds(2) by (intro divide_strict_right_mono mult_strict_left_mono) simp_all
  then have "180 * arccos ?q / pi < 7.65" by simp
  ultimately show ?thesis unfolding a by (simp add: fold_angle_def)
qed

lemma sample_theta_bounds:
  "7.55 < 180 * arccos (226.011 / sqrt 51998.8242155) / pi"
  "180 * arccos (226.011 / sqrt 51998.8242155) / pi < 7.65"
proof -
  let ?q = "226.011 / sqrt 51998.8242155 :: real"
  have "180 * (7.55 * pi / 180) / pi < 180 * arccos ?q / pi"
    using arccos_q_bounds(1) by (intro divide_strict_right_mono mult_strict_left_mono) simp_all
  then show "7.55 < 180 * arccos ?q / pi" by simp
  have "180 * arccos ?q / pi < 180 * (7.65 * pi / 180) / pi"
    using arccos_q_bounds(2) by (intro divide_strict_right_mono mult_strict_left_mono) simp_all
  then show "180 * arccos ?q / pi < 7.65" by simp
qed

lemma sample_numbers:
  "\<bar>res_Bfield sample_result ! 0 - (- 1056.32)\<bar> < 0.01"
  "\<bar>res_Bfield sample_result ! 1 - 3968.10\<bar> < 0.01"
  "\<bar>res_Bfield sample_result ! 2 - (- 30633.28)\<bar> < 0.01"
  "\<bar>res_B_magnitude sample_result - 30907.28\<bar> < 0.01"
proof -
  note g = gamma_mu_bounds
  show "\<bar>res_Bfield sample_result ! 0 - (- 1056.32)\<bar> < 0.01"
    unfolding sample_field using g by simp
  show "\<bar>res_Bfield sample_result ! 1 - 3968.10\<bar> < 0.01"
    unfolding sample_field using g by simp
  show "\<bar>res_Bfield sample_result ! 2 - (- 30633.28)\<bar> < 0.01"
    unfolding sample_field using g by simp
  have "135.538894 * 228.0325 < gamma_mu * sqrt 51998.8242155"
    using g sqrt_s_bounds by (intro mult_strict_mono) simp_all
  moreover have "gamma_mu * sqrt 51998.8242155 < 135.538899 * 228.0326"
    using g sqrt_s_bounds gamma_mu_pos by (intro mult_strict_mono) simp_all
  moreover have "30907.27 < (135.538894 * 228.0325 :: real)"
    "(135.538899 * 228.0326 :: real) < 30907.29"
    by simp_all
  ultimately show "\<bar>res_B_magnitude sample_result - 30907.28\<bar> < 0.01"
    unfolding sample_magnitude by linarith
qed

lemma synthesize_sample:
  assumes "pyindex cs idx = Inr (- 1.355)"
    and "pyindex ts idx = Inr [[283.547, - 28.734, - 15.587], [- 28.734, 167.119, 58.553],
                               [- 15.587, 58.553, - 450.667]]"
  shows "synthesize gamma_mu cs ts idx = Inr sample_result"
  unfolding synthesize_expanded [OF assms] sample_result_def ..

section \<open>The statements of the specification\<close>

text \<open>
  C1, as the code has it. When the contact value of the muon's site in the report is
  -1.355 and its dipolar row is (283.547, 167.119, -450.667, -28.734, -15.587, 58.553),
  the function returns the field \<open>gamma_mu * [-7.7935, 29.2765, -226.011]\<close>, that is
  about [-1056.32, 3968.10, -30633.28], the magnitude about 30907.28 and the angle
  about 7.6 degrees. The figures of the specification for the field and the magnitude
  are these divided by \<open>gamma_mu\<close>: the values that the notebook prints as contact and
  dipolar part are \<^verbatim>\<open>A_c\<close> and \<^verbatim>\<open>A_dip\<close>, which are scaled already.
\<close>

theorem literal_scenario:
  assumes "extract_tensors py np outcar natoms = Inr st"
    and "pyindex (contacts st) muon_index = Inr (- 1.355)"
    and "pyindex (dipole_tensors st) muon_index
           = Inr [[283.547, - 28.734, - 15.587], [- 28.734, 167.119, 58.553],
                  [- 15.587, 58.553, - 450.667]]"
  shows "\<exists>res t. get_hyperfine py np outcar natoms muon_index = Inr res \<and>
           res_Bfield res = [gamma_mu * (- 7.7935), gamma_mu * 29.2765, gamma_mu * (- 226.011)] \<and>
           \<bar>res_Bfield res ! 0 - (- 1056.32)\<bar> < 0.01 \<and>
           \<bar>res_Bfield res ! 1 - 3968.10\<bar> < 0.01 \<and>
           \<bar>res_Bfield res ! 2 - (- 30633.28)\<bar> < 0.01 \<and>
           \<bar>res_B_magnitude res - 30907.28\<bar> < 0.01 \<and>
           res_theta res = Num t \<and> \<bar>t - 7.6\<bar> < 0.05"
proof -
  have "get_hyperfine py np outcar natoms muon_index = Inr sample_result"
    using synthesize_sample [OF assms(2,3)] by (simp only: get_hyperfine_def assms(1) ebind_Inr)
  moreover have "\<bar>180 * arccos (226.011 / sqrt 51998.8242155) / pi - 7.6\<bar> < 0.05"
    unfolding abs_less_iff using sample_theta_bounds by simp
  ultimately show ?thesis
    using sample_field sample_numbers sample_theta by blast
qed

text \<open>
  The claim as stated fails: on such a report the field and the magnitude are more
  than a hundred times the figures of the specification.
\<close>

theorem literal_scenario_counterexample:
  "get_hyperfine float_literal float_literal sample_outcar 1 (- 1) = Inr sample_result
   \<and> 1000 < \<bar>res_Bfield sample_result ! 0 - (- 7.793)\<bar>
   \<and> 1000 < \<bar>res_Bfield sample_result ! 1 - 29.276\<bar>
   \<and> 1000 < \<bar>res_Bfield sample_result ! 2 - (- 226.011)\<bar>
   \<and> 1000 < \<bar>res_B_magnitude sample_result - 228.0\<bar>"
proof (intro conjI)
  show "get_hyperfine float_literal float_literal sample_outcar 1 (- 1) = Inr sample_result"
    by (rule sample_get_hyperfine)
  show "1000 < \<bar>res_Bfield sample_result ! 0 - (- 7.793)\<bar>"
    using sample_numbers(1) by (simp add: abs_if split: if_splits)
  show "1000 < \<bar>res_Bfield sample_result ! 1 - 29.276\<bar>"
    using sample_numbers(2) by (simp add: abs_if split: if_splits)
  show "1000 < \<bar>res_Bfield sample_result ! 2 - (- 226.011)\<bar>"
    using sample_numbers(3) by (simp add: abs_if split: if_splits)
  show "1000 < \<bar>res_B_magnitude sample_result - 228.0\<bar>"
    using sample_numbers(4) by (simp add: abs_if split: if_splits)
qed

theorem literal_scenario_witness:
  "extract_tensors float_literal float_literal sample_outcar 1
     = Inr \<lparr>totalS = Some 2, contacts = [- 1.355],
            dipole_tensors = [[[283.547, - 28.734, - 15.587],
                               [- 28.734, 167.119, 58.553],
                               [- 15.587, 58.553, - 450.667]]]\<rparr>
   \<and> pyindex [- 1.355 :: real] (- 1) = Inr (- 1.355)
   \<and> pyindex [[[283.547, - 28.734, - 15.587], [- 28.734, 167.119, 58.553],
                [- 15.587, 58.553, - 450.667 :: real]]] (- 1)
       = Inr [[283.547, - 28.734, - 15.587], [- 28.734, 167.119, 58.553],
              [- 15.587, 58.553, - 450.667]]
   \<and> (\<exists>res t. get_hyperfine float_literal float_literal sample_outcar 1 (- 1) = Inr res \<and>
           res_Bfield res = [gamma_mu * (- 7.7935), gamma_mu * 29.2765, gamma_mu * (- 226.011)] \<and>
           \<bar>res_Bfield res ! 0 - (- 1056.32)\<bar> < 0.01 \<and>
           \<bar>res_Bfield res ! 1 - 3968.10\<bar> < 0.01 \<and>
           \<bar>res_Bfield res ! 2 - (- 30633.28)\<bar> < 0.01 \<and>
           \<bar>res_B_magnitude res - 30907.28\<bar> < 0.01 \<and>
           res_theta res = Num t \<and> \<bar>t - 7.6\<bar> < 0.05)"
proof -
  let ?cs = "[- 1.355 :: real]"
  let ?t = "[[283.547, - 28.734, - 15.587], [- 28.734, 167.119, 58.553],
             [- 15.587, 58.553, - 450.667 :: real]]"
  let ?st = "\<lparr>totalS = Some 2, contacts = ?cs, dipole_tensors = [?t]\<rparr>"
  have c: "pyindex ?cs (- 1) = Inr (- 1.355)" by (simp add: pyindex_def)
  have d: "pyindex [?t] (- 1) = Inr ?t" by (simp add: pyindex_def)
  have c': "pyindex (contacts ?st) (- 1) = Inr (- 1.355)"
    using c by (simp only: scan_state.select_convs)
  have d': "pyindex (dipole_tensors ?st) (- 1) = Inr ?t"
    using d by (simp only: scan_state.select_convs)
  from literal_scenario [OF sample_extract c' d'] sample_extract c d show ?thesis
    by (intro conjI) assumption+
qed

text \<open>
  C2. For arrays of \<open>natoms\<close> entries, a valid index (negative indices count from the
  end) and any ratio \<open>g\<close>, the second half of the function returns a record in which
  \<open>A = g * dipoles[k] + identity(3) * (g * contacts[k])\<close> entry by entry, \<^verbatim>\<open>Bfield\<close> is
  half of the row 2 of \<open>A\<close>, and \<^verbatim>\<open>B_magnitude\<close> is the Euclidean norm of \<^verbatim>\<open>Bfield\<close>.
\<close>

theorem synthesize_combined_tensor:
  assumes "- int (length cs) \<le> muon_index" and "muon_index < int (length cs)"
    and "length ts = length cs" and "list_all shape33 ts"
  shows "\<exists>res. synthesize g cs ts muon_index = Inr res \<and>
     (let k = nat (if muon_index < 0 then muon_index + int (length cs) else muon_index)
      in \<forall>i<3. \<forall>j<3.
           res_A res ! i ! j = g * (ts ! k ! i ! j) + (if i = j then 1 else 0) * (g * cs ! k)) \<and>
     shape33 (res_A res) \<and>
     res_Bfield res = map (\<lambda>x. 0.5 * x) (res_A res ! 2) \<and>
     res_B_magnitude res
       = sqrt ((res_Bfield res ! 0)\<^sup>2 + (res_Bfield res ! 1)\<^sup>2 + (res_Bfield res ! 2)\<^sup>2)"
proof -
  let ?k = "nat (if muon_index < 0 then muon_index + int (length cs) else muon_index)"
  have c: "pyindex cs muon_index = Inr (cs ! ?k)" using assms(1,2) by (rule pyindex_valid)
  have d: "pyindex ts muon_index = Inr (ts ! ?k)"
    using pyindex_valid [of ts muon_index] assms(1-3) by simp
  from pyindex_in_set [OF d] assms(4) have "shape33 (ts ! ?k)" by (simp add: list_all_iff)
  from shape33_expand [OF this] obtain x0 x1 x2 x3 x4 x5 x6 x7 x8
    where t: "ts ! ?k = [[x0, x1, x2], [x3, x4, x5], [x6, x7, x8]]" by blast
  note s = synthesize_expanded [OF c d [unfolded t], of g]
  have ij: "i = 0 \<or> i = 1 \<or> i = 2" if "i < 3" for i :: nat using that by auto
  show ?thesis
    unfolding s Let_def
    by (rule exI, rule conjI, rule refl) (auto simp: t shape33_def dest!: ij)
qed

theorem synthesize_combined_tensor_witness:
  "- int (length [0, - 1.355 :: real]) \<le> - 1 \<and> - 1 < int (length [0, - 1.355 :: real])
   \<and> length [zeros33, [[283.547, - 28.734, - 15.587], [- 28.734, 167.119, 58.553],
                        [- 15.587, 58.553, - 450.667]]] = length [0, - 1.355 :: real]
   \<and> list_all shape33 [zeros33, [[283.547, - 28.734, - 15.587], [- 28.734, 167.119, 58.553],
                                  [- 15.587, 58.553, - 450.667]]]
   \<and> (\<exists>res. synthesize 2 [0, - 1.355]
          [zeros33, [[283.547, - 28.734, - 15.587], [- 28.734, 167.119, 58.553],
                     [- 15.587, 58.553, - 450.667]]] (- 1) = Inr res
        \<and> res_A res ! 2 ! 2 = 2 * (- 450.667) + 1 * (2 * (- 1.355))
        \<and> res_A res ! 2 ! 1 = 2 * 58.553 + 0 * (2 * (- 1.355))
        \<and> res_Bfield res = map (\<lambda>x. 0.5 * x) (res_A res ! 2)
        \<and> res_B_magnitude res
            = sqrt ((res_Bfield res ! 0)\<^sup>2 + (res_Bfield res ! 1)\<^sup>2 + (res_Bfield res ! 2)\<^sup>2))"
proof -
  let ?cs = "[0, - 1.355 :: real]"
  let ?ts = "[zeros33, [[283.547, - 28.734, - 15.587], [- 28.734, 167.119, 58.553],
                        [- 15.587, 58.553, - 450.667 :: real]]]"
  have h: "- int (length ?cs) \<le> - 1" "- 1 < int (length ?cs)" "length ?ts = length ?cs"
    "list_all shape33 ?ts"
    by (simp_all add: shape33_def zeros33_def numeral_3_eq_3)
  from synthesize_combined_tensor [OF h, of 2] obtain res where
    r: "synthesize 2 ?cs ?ts (- 1) = Inr res"
    and a: "\<forall>i<3. \<forall>j<3. res_A res ! i ! j
        = 2 * (?ts ! nat (- 1 + int (length ?cs)) ! i ! j)
          + (if i = j then 1 else 0) * (2 * ?cs ! nat (- 1 + int (length ?cs)))"
    and b: "res_Bfield res = map (\<lambda>x. 0.5 * x) (res_A res ! 2)"
    and m: "res_B_magnitude res
        = sqrt ((res_Bfield res ! 0)\<^sup>2 + (res_Bfield res ! 1)\<^sup>2 + (res_Bfield res ! 2)\<^sup>2)"
    by (auto simp: Let_def)
  have k: "nat (- 1 + int (length ?cs)) = 1" by simp
  from a have "res_A res ! 2 ! 2 = 2 * (?ts ! 1 ! 2 ! 2) + 1 * (2 * ?cs ! 1)"
    unfolding k by (auto dest!: spec [of _ 2])
  then have a22: "res_A res ! 2 ! 2 = 2 * (- 450.667) + 1 * (2 * (- 1.355))" by simp
  from a have "res_A res ! 2 ! 1 = 2 * (?ts ! 1 ! 2 ! 1) + 0 * (2 * ?cs ! 1)"
    unfolding k using spec [OF a, of 2] by (auto dest!: spec [of _ 1])
  then have a21: "res_A res ! 2 ! 1 = 2 * 58.553 + 0 * (2 * (- 1.355))" by simp
  from h r a22 a21 b m show ?thesis by blast
qed

text \<open>
  C3, as the code has it. On matching a header the loop skips exactly three lines (the
  separator, the column titles and the second separator; the specification says
  two) and then reads \<open>natoms\<close> data lines. For a line that matches the contact
  header only: the body returns exactly when the header is followed by three lines and
  \<open>natoms\<close> data lines whose last tokens convert, and then \<^verbatim>\<open>contacts[i]\<close> is the
  converted last token of the \<open>i\<close>-th data line, in file order; the loop goes on after
  the last data line. For a line that matches the dipolar header only: likewise,
  with the tensor of the \<open>i\<close>-th data line in \<^verbatim>\<open>dipole_tensors[i]\<close>.
\<close>

theorem header_skips_three_lines:
  "(re_contact line \<and> \<not> re_totalspin line \<and> \<not> re_dipole line \<and> length (contacts st) = n \<longrightarrow>
      (loop_body py np n line f st = Inr (f', st') \<longleftrightarrow>
         (\<exists>l1 l2 l3 rows vs. f = l1 # l2 # l3 # rows @ f' \<and> length vs = n \<and>
            list_all2 (contact_value py) rows vs \<and> st' = st\<lparr>contacts := vs\<rparr>))) \<and>
   (re_dipole line \<and> \<not> re_totalspin line \<and> \<not> re_contact line \<and>
    length (dipole_tensors st) = n \<and> list_all shape33 (dipole_tensors st) \<longrightarrow>
      (loop_body py np n line f st = Inr (f', st') \<longleftrightarrow>
         (\<exists>l1 l2 l3 rows new. f = l1 # l2 # l3 # rows @ f' \<and> length new = n \<and>
            list_all2 (row_tensor np) rows new \<and> st' = st\<lparr>dipole_tensors := new\<rparr>)))"
proof (intro conjI impI)
  assume "re_contact line \<and> \<not> re_totalspin line \<and> \<not> re_dipole line \<and> length (contacts st) = n"
  then show "loop_body py np n line f st = Inr (f', st') \<longleftrightarrow>
         (\<exists>l1 l2 l3 rows vs. f = l1 # l2 # l3 # rows @ f' \<and> length vs = n \<and>
            list_all2 (contact_value py) rows vs \<and> st' = st\<lparr>contacts := vs\<rparr>)"
    by (intro loop_body_contact_iff) simp_all
next
  assume "re_dipole line \<and> \<not> re_totalspin line \<and> \<not> re_contact line \<and>
    length (dipole_tensors st) = n \<and> list_all shape33 (dipole_tensors st)"
  then show "loop_body py np n line f st = Inr (f', st') \<longleftrightarrow>
         (\<exists>l1 l2 l3 rows new. f = l1 # l2 # l3 # rows @ f' \<and> length new = n \<and>
            list_all2 (row_tensor np) rows new \<and> st' = st\<lparr>dipole_tensors := new\<rparr>)"
    by (intro loop_body_dipole_iff) simp_all
qed

text \<open>
  The claim as stated fails: with two lines between the header and the data, the
  first data line is skipped as the third line; the value of site 0 is then read from
  the second data line, and with one data line less the file ends inside the block.
\<close>

theorem header_skips_two_lines_counterexample:
  "extract_tensors float_literal float_literal two_line_outcar 1
     = Inr \<lparr>totalS = None, contacts = [2], dipole_tensors = [zeros33]\<rparr>
   \<and> extract_tensors float_literal float_literal (butlast two_line_outcar) 1
     = Inl StopIteration"
proof -
  have full: "extract_tensors float_literal float_literal two_line_outcar 1
     = Inr \<lparr>totalS = None, contacts = [2], dipole_tensors = [zeros33]\<rparr>"
    by (simp add: two_line_outcar_def eval_defs numeral_3_eq_3)
  have short: "butlast two_line_outcar =
     ['' Fermi contact (isotropic) hyperfine coupling parameter (MHz)'',
      '' ------------------------'',
      ''  ion      A_1c      A_tot'',
      ''    1     0.000     1.000'']"
    by (simp add: two_line_outcar_def)
  have "extract_tensors float_literal float_literal
     ['' Fermi contact (isotropic) hyperfine coupling parameter (MHz)'',
      '' ------------------------'',
      ''  ion      A_1c      A_tot'',
      ''    1     0.000     1.000''] 1
     = Inl StopIteration"
    by (simp add: eval_defs numeral_3_eq_3)
  with full show ?thesis by (simp only: short)
qed

text \<open>The layout of C3 at the contact block of one report and the dipolar block of another.\<close>

theorem header_skips_three_lines_witness:
  "re_contact (hd two_line_outcar) \<and> \<not> re_totalspin (hd two_line_outcar)
   \<and> \<not> re_dipole (hd two_line_outcar) \<and> length (contacts (init_state 1)) = 1
   \<and> loop_body float_literal float_literal 1 (hd two_line_outcar) (tl two_line_outcar)
        (init_state 1)
      = Inr ([], (init_state 1)\<lparr>contacts := [2]\<rparr>)
   \<and> re_dipole (sample_outcar ! 7) \<and> \<not> re_totalspin (sample_outcar ! 7)
   \<and> \<not> re_contact (sample_outcar ! 7)
   \<and> length (dipole_tensors (init_state 1)) = 1
   \<and> list_all shape33 (dipole_tensors (init_state 1))
   \<and> loop_body float_literal float_literal 1 (sample_outcar ! 7) (drop 8 sample_outcar)
        (init_state 1)
      = Inr ([sample_outcar ! 12],
             (init_state 1)\<lparr>dipole_tensors :=
               [[[283.547, - 28.734, - 15.587], [- 28.734, 167.119, 58.553],
                 [- 15.587, 58.553, - 450.667]]]\<rparr>)"
proof -
  let ?t = "[[283.547, - 28.734, - 15.587], [- 28.734, 167.119, 58.553],
             [- 15.587, 58.553, - 450.667 :: real]]"
  have c: "re_contact (hd two_line_outcar)" "\<not> re_totalspin (hd two_line_outcar)"
    "\<not> re_dipole (hd two_line_outcar)" "length (contacts (init_state 1)) = 1"
    by (simp_all add: two_line_outcar_def re_contact_def re_totalspin_def re_dipole_def
        init_state_def)
  have cf: "tl two_line_outcar =
      '' ------------------------'' # ''  ion      A_1c      A_tot'' #
      ''    1     0.000     1.000'' # [''    2     0.000     2.000''] @ []"
    by (simp add: two_line_outcar_def)
  have cv: "list_all2 (contact_value float_literal) [''    2     0.000     2.000''] [2]"
    by (simp add: contact_value_def str_split_def isspace_def float_literal_def
        unsigned_literal_def digit_of_def)
  have d: "re_dipole (sample_outcar ! 7)" "\<not> re_totalspin (sample_outcar ! 7)"
    "\<not> re_contact (sample_outcar ! 7)" "length (dipole_tensors (init_state 1)) = 1"
    "list_all shape33 (dipole_tensors (init_state 1))"
    by (simp_all add: sample_outcar_def re_contact_def re_totalspin_def re_dipole_def
        init_state_def)
  have df: "drop 8 sample_outcar =
      sample_outcar ! 8 # sample_outcar ! 9 # sample_outcar ! 10 #
      [sample_outcar ! 11] @ [sample_outcar ! 12]"
    by (simp add: sample_outcar_def)
  have dv: "list_all2 (row_tensor float_literal) [sample_outcar ! 11] [?t]"
    by (simp add: sample_outcar_def row_tensor_def tensor_of_def str_split_def isspace_def
        float_literal_def unsigned_literal_def digit_of_def)
  note th = header_skips_three_lines [of _ "init_state 1" 1 float_literal float_literal]
  from th [of "hd two_line_outcar" "tl two_line_outcar" "[]" "(init_state 1)\<lparr>contacts := [2]\<rparr>"]
    c cf cv
  have r1: "loop_body float_literal float_literal 1 (hd two_line_outcar) (tl two_line_outcar)
        (init_state 1) = Inr ([], (init_state 1)\<lparr>contacts := [2]\<rparr>)"
    by (metis length_Cons list.size(3) One_nat_def)
  from th [of "sample_outcar ! 7" "drop 8 sample_outcar" "[sample_outcar ! 12]"
      "(init_state 1)\<lparr>dipole_tensors := [?t]\<rparr>"] d df dv
  have r2: "loop_body float_literal float_literal 1 (sample_outcar ! 7) (drop 8 sample_outcar)
        (init_state 1) = Inr ([sample_outcar ! 12], (init_state 1)\<lparr>dipole_tensors := [?t]\<rparr>)"
    by (metis length_Cons list.size(3) One_nat_def)
  from c d r1 r2 show ?thesis by simp
qed

text \<open>
  C4, as the code has it. On a line with the total-spin marker the last token is
  converted and kept in the local \<^verbatim>\<open>totalS\<close>, and a token that does not convert
  raises ValueError; but the returned record has the keys \<^verbatim>\<open>A_c\<close>, \<^verbatim>\<open>A_dip\<close>,
  \<^verbatim>\<open>A\<close>, \<^verbatim>\<open>Bfield\<close>, \<^verbatim>\<open>B_magnitude\<close> and \<^verbatim>\<open>theta\<close> only, all computed from
  the two arrays: two reports with the same arrays give the same record, whatever
  their total spins.
\<close>

theorem total_spin_parsed_not_returned:
  "(re_totalspin line \<and> loop_body py np n line f st = Inr (f', st') \<longrightarrow>
      str_split line \<noteq> [] \<and> totalS st' = py (last (str_split line)) \<and> totalS st' \<noteq> None) \<and>
   (re_totalspin line \<and> py (last (str_split line)) = None \<longrightarrow>
      loop_body py np n line f st = Inl ValueError) \<and>
   (extract_tensors py np outcar1 natoms1 = Inr st1 \<and>
    extract_tensors py np outcar2 natoms2 = Inr st2 \<and>
    contacts st1 = contacts st2 \<and> dipole_tensors st1 = dipole_tensors st2 \<longrightarrow>
      get_hyperfine py np outcar1 natoms1 muon_index
        = get_hyperfine py np outcar2 natoms2 muon_index)"
proof (intro conjI)
  show "re_totalspin line \<and> loop_body py np n line f st = Inr (f', st') \<longrightarrow>
      str_split line \<noteq> [] \<and> totalS st' = py (last (str_split line)) \<and> totalS st' \<noteq> None"
    using loop_body_totalS [of line py np n f st f' st'] by blast
  show "re_totalspin line \<and> py (last (str_split line)) = None \<longrightarrow>
      loop_body py np n line f st = Inl ValueError"
    using loop_body_totalS_error [of line py np n f st] by blast
  show "extract_tensors py np outcar1 natoms1 = Inr st1 \<and>
    extract_tensors py np outcar2 natoms2 = Inr st2 \<and>
    contacts st1 = contacts st2 \<and> dipole_tensors st1 = dipole_tensors st2 \<longrightarrow>
      get_hyperfine py np outcar1 natoms1 muon_index
        = get_hyperfine py np outcar2 natoms2 muon_index"
    by (simp add: get_hyperfine_def)
qed

text \<open>
  The claim as stated fails: two reports that differ in the total spin only, 2 and 5,
  give the same returned record; the total spin is in neither.
\<close>

theorem total_spin_returned_counterexample:
  "extract_tensors float_literal float_literal (spin_outcar ''2.0000000'') 1
     = Inr \<lparr>totalS = Some 2, contacts = [- 1.355], dipole_tensors = [zeros33]\<rparr>
   \<and> extract_tensors float_literal float_literal (spin_outcar ''5.0000000'') 1
     = Inr \<lparr>totalS = Some 5, contacts = [- 1.355], dipole_tensors = [zeros33]\<rparr>
   \<and> \<not> isl (get_hyperfine float_literal float_literal (spin_outcar ''2.0000000'') 1 (- 1))
   \<and> get_hyperfine float_literal float_literal (spin_outcar ''2.0000000'') 1 (- 1)
     = get_hyperfine float_literal float_literal (spin_outcar ''5.0000000'') 1 (- 1)"
proof -
  have e2: "extract_tensors float_literal float_literal (spin_outcar ''2.0000000'') 1
     = Inr \<lparr>totalS = Some 2, contacts = [- 1.355], dipole_tensors = [zeros33]\<rparr>"
    by (simp add: spin_outcar_def eval_defs)
  have e5: "extract_tensors float_literal float_literal (spin_outcar ''5.0000000'') 1
     = Inr \<lparr>totalS = Some 5, contacts = [- 1.355], dipole_tensors = [zeros33]\<rparr>"
    by (simp add: spin_outcar_def eval_defs)
  have "\<exists>res. synthesize gamma_mu [- 1.355] [zeros33] (- 1) = Inr res"
    by (rule synthesize_returns [where c = "- 1.355" and d = zeros33])
      (simp_all add: pyindex_def)
  then have r: "\<not> isl (get_hyperfine float_literal float_literal (spin_outcar ''2.0000000'') 1 (- 1))"
    by (auto simp: get_hyperfine_def e2)
  from e2 e5 r show ?thesis by (simp add: get_hyperfine_def)
qed

theorem total_spin_parsed_not_returned_witness:
  "re_totalspin (hd (spin_outcar ''2.0000000''))
   \<and> loop_body float_literal float_literal 1 (hd (spin_outcar ''2.0000000''))
        (tl (spin_outcar ''2.0000000'')) (init_state 1)
      = Inr (tl (spin_outcar ''2.0000000''), (init_state 1)\<lparr>totalS := Some 2\<rparr>)
   \<and> totalS ((init_state 1)\<lparr>totalS := Some 2\<rparr>)
      = float_literal (last (str_split (hd (spin_outcar ''2.0000000''))))
   \<and> re_totalspin '' Total magnetic moment S''
   \<and> float_literal (last (str_split '' Total magnetic moment S'')) = None
   \<and> loop_body float_literal float_literal 1 '' Total magnetic moment S'' [] (init_state 1)
      = Inl ValueError
   \<and> extract_tensors float_literal float_literal (spin_outcar ''2.0000000'') 1
     = Inr \<lparr>totalS = Some 2, contacts = [- 1.355], dipole_tensors = [zeros33]\<rparr>
   \<and> extract_tensors float_literal float_literal (spin_outcar ''7.5'') 1
     = Inr \<lparr>totalS = Some 7.5, contacts = [- 1.355], dipole_tensors = [zeros33]\<rparr>
   \<and> get_hyperfine float_literal float_literal (spin_outcar ''2.0000000'') 1 0
     = get_hyperfine float_literal float_literal (spin_outcar ''7.5'') 1 0"
proof -
  have m: "re_totalspin (hd (spin_outcar ''2.0000000''))"
    by (simp add: spin_outcar_def re_totalspin_def)
  have b: "loop_body float_literal float_literal 1 (hd (spin_outcar ''2.0000000''))
        (tl (spin_outcar ''2.0000000'')) (init_state 1)
      = Inr (tl (spin_outcar ''2.0000000''), (init_state 1)\<lparr>totalS := Some 2\<rparr>)"
    by (simp add: spin_outcar_def eval_defs)
  have m': "re_totalspin '' Total magnetic moment S''"
    by (simp add: re_totalspin_def)
  have n: "float_literal (last (str_split '' Total magnetic moment S'')) = None"
    by (simp add: str_split_def isspace_def float_literal_def unsigned_literal_def digit_of_def)
  have e2: "extract_tensors float_literal float_literal (spin_outcar ''2.0000000'') 1
     = Inr \<lparr>totalS = Some 2, contacts = [- 1.355], dipole_tensors = [zeros33]\<rparr>"
    by (simp add: spin_outcar_def eval_defs)
  have e7: "extract_tensors float_literal float_literal (spin_outcar ''7.5'') 1
     = Inr \<lparr>totalS = Some 7.5, contacts = [- 1.355], dipole_tensors = [zeros33]\<rparr>"
    by (simp add: spin_outcar_def eval_defs)
  note th1 = total_spin_parsed_not_returned
    [of "hd (spin_outcar ''2.0000000'')" float_literal float_literal 1
        "tl (spin_outcar ''2.0000000'')" "init_state 1" "tl (spin_outcar ''2.0000000'')"
        "(init_state 1)\<lparr>totalS := Some 2\<rparr>"]
  note th2 = total_spin_parsed_not_returned
    [of "'' Total magnetic moment S''" float_literal float_literal 1 "[]" "init_state 1" _ _
        "spin_outcar ''2.0000000''" 1
        "\<lparr>totalS = Some 2, contacts = [- 1.355], dipole_tensors = [zeros33]\<rparr>"
        "spin_outcar ''7.5''" 1
        "\<lparr>totalS = Some 7.5, contacts = [- 1.355], dipole_tensors = [zeros33]\<rparr>" 0]
  from th1 m b have c1: "totalS ((init_state 1)\<lparr>totalS := Some 2\<rparr>)
      = float_literal (last (str_split (hd (spin_outcar ''2.0000000''))))"
    by blast
  from th2 m' n have c2: "loop_body float_literal float_literal 1
      '' Total magnetic moment S'' [] (init_state 1) = Inl ValueError"
    by blast
  from th2 e2 e7 have c3: "get_hyperfine float_literal float_literal (spin_outcar ''2.0000000'') 1 0
     = get_hyperfine float_literal float_literal (spin_outcar ''7.5'') 1 0"
    by simp
  from m b c1 m' n c2 e2 e7 c3 show ?thesis by blast
qed

text \<open>
  C5. Every tensor of the \<^verbatim>\<open>dipole_tensors\<close> array at the end of the scan is
  symmetric: entry \<open>(i, j)\<close> equals entry \<open>(j, i)\<close>. The nine assignments of a data
  line set \<open>(0,1)\<close> and \<open>(1,0)\<close> from token 4, \<open>(0,2)\<close> and \<open>(2,0)\<close> from token 5,
  \<open>(1,2)\<close> and \<open>(2,1)\<close> from token 6.
\<close>

theorem dipole_tensors_symmetric:
  "(extract_tensors py np outcar natoms = Inr st \<longrightarrow>
      (\<forall>t\<in>set (dipole_tensors st). \<forall>i<3. \<forall>j<3. t ! i ! j = t ! j ! i)) \<and>
   (store_row ts k a = Inr ts' \<and> shape33 (ts ! k) \<longrightarrow>
      ts' ! k ! 0 ! 1 = a ! 4 \<and> ts' ! k ! 1 ! 0 = a ! 4 \<and>
      ts' ! k ! 0 ! 2 = a ! 5 \<and> ts' ! k ! 2 ! 0 = a ! 5 \<and>
      ts' ! k ! 1 ! 2 = a ! 6 \<and> ts' ! k ! 2 ! 1 = a ! 6)"
proof (intro conjI impI ballI allI)
  fix i j :: nat and t :: "real list list"
  assume "extract_tensors py np outcar natoms = Inr st" and "t \<in> set (dipole_tensors st)"
    and "i < 3" and "j < 3"
  with extract_tensors_invariant [of py np outcar natoms st] show "t ! i ! j = t ! j ! i"
    by (auto simp: list_all_iff intro: sym33_entries)
next
  assume "store_row ts k a = Inr ts' \<and> shape33 (ts ! k)"
  then have e: "ts' ! k = tensor_of a" by (auto intro: store_row_entries)
  show "ts' ! k ! 0 ! 1 = a ! 4" "ts' ! k ! 1 ! 0 = a ! 4" "ts' ! k ! 0 ! 2 = a ! 5"
    "ts' ! k ! 2 ! 0 = a ! 5" "ts' ! k ! 1 ! 2 = a ! 6" "ts' ! k ! 2 ! 1 = a ! 6"
    by (simp_all add: e tensor_of_def)
qed

theorem dipole_tensors_symmetric_witness:
  "extract_tensors float_literal float_literal sample_outcar 1
     = Inr \<lparr>totalS = Some 2, contacts = [- 1.355],
            dipole_tensors = [[[283.547, - 28.734, - 15.587],
                               [- 28.734, 167.119, 58.553],
                               [- 15.587, 58.553, - 450.667]]]\<rparr>
   \<and> [[283.547, - 28.734, - 15.587], [- 28.734, 167.119, 58.553],
       [- 15.587, 58.553, - 450.667 :: real]] ! 0 ! 2
     = [[283.547, - 28.734, - 15.587], [- 28.734, 167.119, 58.553],
        [- 15.587, 58.553, - 450.667]] ! 2 ! 0
   \<and> store_row [zeros33] 0 [1, 283.547, 167.119, - 450.667, - 28.734, - 15.587, 58.553]
       = Inr [[[283.547, - 28.734, - 15.587], [- 28.734, 167.119, 58.553],
               [- 15.587, 58.553, - 450.667]]]
   \<and> shape33 ([zeros33] ! 0)
   \<and> [[[283.547, - 28.734, - 15.587], [- 28.734, 167.119, 58.553],
        [- 15.587, 58.553, - 450.667 :: real]]] ! 0 ! 1 ! 2 = 58.553"
proof -
  let ?t = "[[283.547, - 28.734, - 15.587], [- 28.734, 167.119, 58.553],
             [- 15.587, 58.553, - 450.667 :: real]]"
  let ?a = "[1, 283.547, 167.119, - 450.667, - 28.734, - 15.587, 58.553 :: real]"
  note e = sample_extract
  have s: "store_row [zeros33] 0 ?a = Inr [?t]"
    by (simp add: store_row_def getitem_def setitem3_def zeros33_def numeral_3_eq_3)
  have sh: "shape33 ([zeros33] ! 0)" by simp
  note th = dipole_tensors_symmetric
    [of float_literal float_literal sample_outcar 1
        "\<lparr>totalS = Some 2, contacts = [- 1.355], dipole_tensors = [?t]\<rparr>"
        "[zeros33]" 0 ?a "[?t]"]
  from th e have "?t ! 0 ! 2 = ?t ! 2 ! 0" by simp
  moreover from th s sh have "[?t] ! 0 ! 1 ! 2 = ?a ! 6" by blast
  ultimately show ?thesis using e s sh by simp
qed









text \<open>
  C9, as the code has it. No exception is raised for a zero field: for a valid index
  the second half of the function always returns a record, and whenever the field
  magnitude of the record is zero its angle is NaN (the quotient by zero and its arc
  cosine are computed by numpy with a warning, and NaN is not above 90).
\<close>

theorem zero_field_returns_nan:
  "(- int (length cs) \<le> muon_index \<and> muon_index < int (length cs) \<and>
    length ts = length cs \<and> list_all shape33 ts \<longrightarrow>
      (\<exists>res. synthesize g cs ts muon_index = Inr res)) \<and>
   (synthesize g cs ts muon_index = Inr res \<and> res_B_magnitude res = 0 \<longrightarrow>
      res_theta res = NaN) \<and>
   (extract_tensors py np outcar natoms = Inr st \<and> - natoms \<le> muon_index \<and>
    muon_index < natoms \<longrightarrow>
      (\<exists>res. get_hyperfine py np outcar natoms muon_index = Inr res)) \<and>
   (get_hyperfine py np outcar natoms muon_index = Inr res \<and> res_B_magnitude res = 0 \<longrightarrow>
      res_theta res = NaN)"
proof (intro conjI)
  show "- int (length cs) \<le> muon_index \<and> muon_index < int (length cs) \<and>
    length ts = length cs \<and> list_all shape33 ts \<longrightarrow>
      (\<exists>res. synthesize g cs ts muon_index = Inr res)"
    using synthesize_valid_index [of cs muon_index ts g] by blast
  show "synthesize g cs ts muon_index = Inr res \<and> res_B_magnitude res = 0 \<longrightarrow>
      res_theta res = NaN"
    using synthesize_zero_magnitude [of g cs ts muon_index res] by blast
  show "extract_tensors py np outcar natoms = Inr st \<and> - natoms \<le> muon_index \<and>
    muon_index < natoms \<longrightarrow>
      (\<exists>res. get_hyperfine py np outcar natoms muon_index = Inr res)"
    using get_hyperfine_valid_index [of py np outcar natoms st muon_index] by blast
  show "get_hyperfine py np outcar natoms muon_index = Inr res \<and> res_B_magnitude res = 0 \<longrightarrow>
      res_theta res = NaN"
  proof
    assume a: "get_hyperfine py np outcar natoms muon_index = Inr res \<and> res_B_magnitude res = 0"
    then obtain st :: scan_state where
      "synthesize gamma_mu (contacts st) (dipole_tensors st) muon_index = Inr res"
      unfolding get_hyperfine_eq_Inr by blast
    with a show "res_theta res = NaN" by (intro synthesize_zero_magnitude) simp_all
  qed
qed

text \<open>
  The claim as stated fails: on a report with no marker the arrays stay zero, the
  field is zero, and the function returns a record with the angle NaN; no exception.
\<close>

theorem zero_field_error_counterexample:
  "get_hyperfine float_literal float_literal ['' VASP output''] 2 0
     = Inr \<lparr>res_A_c = 0, res_A_dip = zeros33, res_A = zeros33, res_Bfield = [0, 0, 0],
            res_B_magnitude = 0, res_theta = NaN\<rparr>"
proof -
  have e: "extract_tensors float_literal float_literal ['' VASP output''] 2
      = Inr \<lparr>totalS = None, contacts = [0, 0], dipole_tensors = [zeros33, zeros33]\<rparr>"
    by (simp add: extract_tensors_def init_state_def loop_body_def spin_part_def
        contact_part_def dipole_part_def re_totalspin_def re_contact_def re_dipole_def
        numeral_2_eq_2)
  have c: "pyindex [0, 0 :: real] 0 = Inr 0" by (simp add: pyindex_def)
  have d: "pyindex [zeros33, zeros33] 0 = Inr [[0, 0, 0], [0, 0, 0], [0, 0, 0]]"
    by (simp add: pyindex_def zeros33_def numeral_3_eq_3)
  have "synthesize gamma_mu [0, 0] [zeros33, zeros33] 0
      = Inr \<lparr>res_A_c = 0, res_A_dip = zeros33, res_A = zeros33, res_Bfield = [0, 0, 0],
            res_B_magnitude = 0, res_theta = NaN\<rparr>"
    unfolding synthesize_expanded [OF c d]
    by (simp add: zeros33_def numeral_3_eq_3 angle_deg_def fold_angle_def)
  then show ?thesis
    by (simp only: get_hyperfine_def e ebind_Inr scan_state.select_convs)
qed

theorem zero_field_returns_nan_witness:
  "- int (length [1.5 :: real]) \<le> - 1 \<and> - 1 < int (length [1.5 :: real])
   \<and> length [[[1, 0.25, 0], [0.25, 0.5, 0], [0, 0, - 1.5 :: real]]] = length [1.5 :: real]
   \<and> list_all shape33 [[[1, 0.25, 0], [0.25, 0.5, 0], [0, 0, - 1.5]]]
   \<and> (\<exists>res. synthesize gamma_mu [1.5] [[[1, 0.25, 0], [0.25, 0.5, 0], [0, 0, - 1.5]]] (- 1)
         = Inr res \<and> res_B_magnitude res = 0 \<and> res_theta res = NaN)
   \<and> extract_tensors float_literal float_literal degenerate_outcar 1
     = Inr \<lparr>totalS = None, contacts = [1.5],
            dipole_tensors = [[[1, 0.25, 0], [0.25, 0.5, 0], [0, 0, - 1.5]]]\<rparr>
   \<and> (\<exists>res. get_hyperfine float_literal float_literal degenerate_outcar 1 (- 1) = Inr res
         \<and> res_B_magnitude res = 0 \<and> res_theta res = NaN)"
proof -
  let ?cs = "[1.5 :: real]"
  let ?ts = "[[[1, 0.25, 0], [0.25, 0.5, 0], [0, 0, - 1.5 :: real]]]"
  let ?st = "\<lparr>totalS = None, contacts = ?cs, dipole_tensors = ?ts\<rparr>"
  have h: "- int (length ?cs) \<le> - 1" "- 1 < int (length ?cs)" "length ?ts = length ?cs"
    "list_all shape33 ?ts"
    by (simp_all add: shape33_def)
  have i: "- (1 :: int) \<le> - 1" "- 1 < (1 :: int)" by simp_all
  have c: "pyindex ?cs (- 1) = Inr 1.5" by (simp add: pyindex_def)
  have d: "pyindex ?ts (- 1) = Inr [[1, 0.25, 0], [0.25, 0.5, 0], [0, 0, - 1.5]]"
    by (simp add: pyindex_def)
  have m: "res_B_magnitude r = 0"
    if "synthesize gamma_mu ?cs ?ts (- 1) = Inr r" for r
    using that unfolding synthesize_expanded [OF c d] by auto
  have g: "get_hyperfine float_literal float_literal degenerate_outcar 1 (- 1)
      = synthesize gamma_mu ?cs ?ts (- 1)"
    by (simp only: get_hyperfine_def degenerate_extract ebind_Inr scan_state.select_convs)
  note th = zero_field_returns_nan
    [of ?cs "- 1" ?ts gamma_mu _ float_literal float_literal degenerate_outcar 1 ?st]
  from th h obtain r where r: "synthesize gamma_mu ?cs ?ts (- 1) = Inr r" by blast
  from zero_field_returns_nan
    [of ?cs "- 1" ?ts gamma_mu r float_literal float_literal degenerate_outcar 1 ?st]
    r m [OF r]
  have n: "res_theta r = NaN" by blast
  from th degenerate_extract i obtain r' where
    r': "get_hyperfine float_literal float_literal degenerate_outcar 1 (- 1) = Inr r'"
    by blast
  from zero_field_returns_nan
    [of ?cs "- 1" ?ts gamma_mu r' float_literal float_literal degenerate_outcar 1 ?st]
    r' m [of r'] g
  have n': "res_theta r' = NaN \<and> res_B_magnitude r' = 0" by auto
  from h r m [OF r] n degenerate_extract r' n' show ?thesis by blast
qed

text \<open>
  C10. On a dipolar data line every token is converted, the site identifier and any
  token after the sixth component included: the line is stored only if all of them
  convert, there are at least seven, and the tensor is then built from the tokens at
  the positions 1 to 6. A token that does not convert raises ValueError, and the
  extraction fails when such a token stands on one of the \<open>natoms\<close> data lines of a
  matched dipolar header.
\<close>

theorem dipolar_line_tokens:
  "(dipole_row np ts i l = Inr ts' \<and> shape33 (ts ! i) \<longrightarrow>
      (\<exists>a. map np (str_split l) = map Some a \<and> 7 \<le> length a \<and> ts' ! i = tensor_of a)) \<and>
   (tok \<in> set (str_split l) \<and> np tok = None \<longrightarrow> dipole_row np ts i l = Inl ValueError) \<and>
   ((line, f, st) \<in> set (iterations py np (nat natoms) outcar (init_state (nat natoms))) \<and>
    re_dipole line \<and> \<not> re_contact line \<and> k < nat natoms \<and> k + 3 < length f \<and>
    tok \<in> set (str_split (f ! (k + 3))) \<and> np tok = None \<longrightarrow>
      (\<exists>e. get_hyperfine py np outcar natoms muon_index = Inl e))"
proof (intro conjI impI)
  assume a: "dipole_row np ts i l = Inr ts' \<and> shape33 (ts ! i)"
  then obtain a where conv: "astype_float np (str_split l) = Inr a"
    and st: "store_row ts i a = Inr ts'"
    by (auto simp: dipole_row_def ebind_eq_Inr)
  from store_row_conv [OF st] store_row_entries [OF st] a conv
  show "\<exists>a. map np (str_split l) = map Some a \<and> 7 \<le> length a \<and> ts' ! i = tensor_of a"
    by (auto simp: astype_float_eq_Inr)
next
  assume "tok \<in> set (str_split l) \<and> np tok = None"
  then have "astype_float np (str_split l) = Inl ValueError"
    by (auto intro: astype_float_bad_token)
  then show "dipole_row np ts i l = Inl ValueError"
    by (simp add: dipole_row_def)
next
  assume a: "(line, f, st) \<in> set (iterations py np (nat natoms) outcar (init_state (nat natoms))) \<and>
    re_dipole line \<and> \<not> re_contact line \<and> k < nat natoms \<and> k + 3 < length f \<and>
    tok \<in> set (str_split (f ! (k + 3))) \<and> np tok = None"
  then have "\<And>r. loop_body py np (nat natoms) line f st \<noteq> Inr r"
    by (intro loop_body_bad_token [where k = k and tok = tok]) simp_all
  then obtain e where "loop_body py np (nat natoms) line f st = Inl e"
    by (cases "loop_body py np (nat natoms) line f st") auto
  with a have "scan_lines py np (nat natoms) outcar (init_state (nat natoms)) = Inl e"
    by (intro iterations_error [where line = line and f = f and st = st]) simp_all
  then show "\<exists>e. get_hyperfine py np outcar natoms muon_index = Inl e"
    by (rule get_hyperfine_scan_error)
qed

theorem dipolar_line_tokens_witness:
  "dipole_row float_literal [zeros33] 0 ''  1   1.0 2.0 -3.0 4.0 5.0 6.0 9.9''
     = Inr [[[1, 4, 5], [4, 2, 6], [5, 6, - 3]]]
   \<and> shape33 ([zeros33] ! 0)
   \<and> (\<exists>a. map float_literal (str_split ''  1   1.0 2.0 -3.0 4.0 5.0 6.0 9.9'') = map Some a
          \<and> 7 \<le> length a \<and> [[[1, 4, 5], [4, 2, 6], [5, 6, - 3]]] ! 0 = tensor_of a)
   \<and> ''Fe2'' \<in> set (str_split ''   Fe2    1.0   2.0  -3.0   4.0   5.0    6.0'')
   \<and> float_literal ''Fe2'' = None
   \<and> dipole_row float_literal [zeros33] 0 ''   Fe2    1.0   2.0  -3.0   4.0   5.0    6.0''
       = Inl ValueError
   \<and> (hd labelled_outcar, tl labelled_outcar, init_state 2)
       \<in> set (iterations float_literal float_literal (nat 2) labelled_outcar (init_state (nat 2)))
   \<and> re_dipole (hd labelled_outcar) \<and> \<not> re_contact (hd labelled_outcar)
   \<and> 1 < nat 2 \<and> 1 + 3 < length (tl labelled_outcar)
   \<and> ''Fe2'' \<in> set (str_split (tl labelled_outcar ! (1 + 3)))
   \<and> (\<exists>e. get_hyperfine float_literal float_literal labelled_outcar 2 (- 1) = Inl e)"
proof -
  let ?good = "''  1   1.0 2.0 -3.0 4.0 5.0 6.0 9.9''"
  let ?bad = "''   Fe2    1.0   2.0  -3.0   4.0   5.0    6.0''"
  let ?t = "[[[1, 4, 5], [4, 2, 6], [5, 6, - 3 :: real]]]"
  have row: "dipole_row float_literal [zeros33] 0 ?good = Inr ?t"
    by (simp add: eval_defs numeral_3_eq_3)
  have sh: "shape33 ([zeros33] ! 0)" by simp
  have tok: "''Fe2'' \<in> set (str_split ?bad)"
    by (simp add: str_split_def isspace_def)
  have none: "float_literal ''Fe2'' = None"
    by (simp add: float_literal_def unsigned_literal_def digit_of_def)
  have it: "(hd labelled_outcar, tl labelled_outcar, init_state 2)
       \<in> set (iterations float_literal float_literal (nat 2) labelled_outcar (init_state (nat 2)))"
    by (simp add: labelled_outcar_def)
  have hdr: "re_dipole (hd labelled_outcar)" "\<not> re_contact (hd labelled_outcar)"
    by (simp_all add: labelled_outcar_def re_dipole_def re_contact_def)
  have k: "1 < nat 2" "1 + 3 < length (tl labelled_outcar)"
    by (simp_all add: labelled_outcar_def)
  have tok': "''Fe2'' \<in> set (str_split (tl labelled_outcar ! (1 + 3)))"
    by (simp add: labelled_outcar_def str_split_def isspace_def)
  note good = dipolar_line_tokens
    [of float_literal "[zeros33]" 0 ?good ?t]
  note bad = dipolar_line_tokens
    [of float_literal "[zeros33]" 0 ?bad _ "''Fe2''" "hd labelled_outcar" "tl labelled_outcar"
        "init_state 2" float_literal 2 labelled_outcar 1 "- 1"]
  from good row sh
  have a: "\<exists>a. map float_literal (str_split ?good) = map Some a \<and> 7 \<le> length a
             \<and> ?t ! 0 = tensor_of a"
    by blast
  from bad tok none
  have b: "dipole_row float_literal [zeros33] 0 ?bad = Inl ValueError"
    by blast
  from bad it hdr k tok' none
  have c: "\<exists>e. get_hyperfine float_literal float_literal labelled_outcar 2 (- 1) = Inl e"
    by blast
  from row sh a tok none b it hdr k tok' c show ?thesis
    by blast
qed

end
